theory Spec2Isabelle
  imports Complex_Main
begin

section \<open>Scalars\<close>

text \<open>
  The library stores angles, wavelengths and spectrum channels as IEEE floats.  A scalar
  is either a finite float, modelled by the real number it denotes, or one of the three
  non-finite values, which are kept because \<open>SampleSet::validate\<close> tests for them.
  Where a property depends on how an operation rounds or overflows, the operation is
  one of the float operations of the next section; elsewhere the arithmetic on finite
  values is exact.
\<close>

datatype scalar = Fin real | PInf | NInf | NaN

fun isFinite :: "scalar \<Rightarrow> bool" where
  "isFinite (Fin x) = True"
| "isFinite PInf = False"
| "isFinite NInf = False"
| "isFinite NaN = False"

fun isNaN :: "scalar \<Rightarrow> bool" where
  "isNaN NaN = True"
| "isNaN (Fin x) = False"
| "isNaN PInf = False"
| "isNaN NInf = False"

text \<open>Eigen's \<open>allFinite()\<close> and \<open>hasNaN()\<close> on an array.\<close>

definition allFinite :: "scalar list \<Rightarrow> bool" where
  "allFinite xs = list_all isFinite xs"

definition hasNaN :: "scalar list \<Rightarrow> bool" where
  "hasNaN xs = list_ex isNaN xs"

text \<open>IEEE comparison of a scalar with a finite bound: every comparison with NaN is false.\<close>

fun gt :: "scalar \<Rightarrow> real \<Rightarrow> bool" where
  "gt (Fin x) b = (x > b)"
| "gt PInf b = True"
| "gt NInf b = False"
| "gt NaN b = False"

fun lt :: "scalar \<Rightarrow> real \<Rightarrow> bool" where
  "lt (Fin x) b = (x < b)"
| "lt PInf b = False"
| "lt NInf b = True"
| "lt NaN b = False"

text \<open>
  Modelled from the spec: the constant \<open>PI_F\<close> of Common/Utility.h, which is not part of
  the sources at hand; the spec writes it \<open>\<pi>\<close>.
\<close>

definition PI_F :: real where
  "PI_F = pi"

section \<open>Float operations with rounding\<close>

text \<open>
  The result of a float operation on finite operands is the exact result rounded to a
  float, or an infinity when the rounded result lies beyond the largest finite float.
  The rounding \<open>rnd\<close>, the largest finite float \<open>FLT_MAX\<close> and \<open>std::pow\<close> (\<open>powF\<close>) are
  the fields of one argument.  The non-finite operands follow the IEEE rules; zero has
  no sign in the model, and a finite value divided by zero gets the sign of the value.
\<close>

record floatOps =
  rnd :: "real \<Rightarrow> real"
  FLT_MAX :: real
  powF :: "scalar \<Rightarrow> scalar \<Rightarrow> scalar"

definition toFloat :: "floatOps \<Rightarrow> real \<Rightarrow> scalar" where
  "toFloat ar x =
     (let y = rnd ar x
      in if FLT_MAX ar < y then PInf else if y < - FLT_MAX ar then NInf else Fin y)"

fun addF :: "floatOps \<Rightarrow> scalar \<Rightarrow> scalar \<Rightarrow> scalar" where
  "addF ar (Fin x) (Fin y) = toFloat ar (x + y)"
| "addF ar NaN b = NaN"
| "addF ar a NaN = NaN"
| "addF ar PInf NInf = NaN"
| "addF ar NInf PInf = NaN"
| "addF ar PInf b = PInf"
| "addF ar NInf b = NInf"
| "addF ar a PInf = PInf"
| "addF ar a NInf = NInf"

fun mulF :: "floatOps \<Rightarrow> scalar \<Rightarrow> scalar \<Rightarrow> scalar" where
  "mulF ar (Fin x) (Fin y) = toFloat ar (x * y)"
| "mulF ar NaN b = NaN"
| "mulF ar a NaN = NaN"
| "mulF ar PInf (Fin y) = (if 0 < y then PInf else if y < 0 then NInf else NaN)"
| "mulF ar NInf (Fin y) = (if 0 < y then NInf else if y < 0 then PInf else NaN)"
| "mulF ar (Fin x) PInf = (if 0 < x then PInf else if x < 0 then NInf else NaN)"
| "mulF ar (Fin x) NInf = (if 0 < x then NInf else if x < 0 then PInf else NaN)"
| "mulF ar PInf PInf = PInf"
| "mulF ar PInf NInf = NInf"
| "mulF ar NInf PInf = NInf"
| "mulF ar NInf NInf = PInf"

fun divF :: "floatOps \<Rightarrow> scalar \<Rightarrow> scalar \<Rightarrow> scalar" where
  "divF ar (Fin x) (Fin y) =
     (if y = 0 then (if x = 0 then NaN else if 0 < x then PInf else NInf)
      else toFloat ar (x / y))"
| "divF ar NaN b = NaN"
| "divF ar a NaN = NaN"
| "divF ar (Fin x) PInf = Fin 0"
| "divF ar (Fin x) NInf = Fin 0"
| "divF ar PInf (Fin y) = (if 0 \<le> y then PInf else NInf)"
| "divF ar NInf (Fin y) = (if 0 \<le> y then NInf else PInf)"
| "divF ar PInf b = NaN"
| "divF ar NInf b = NaN"

text \<open>
  One instance: operations that round nothing, with the largest finite single-precision
  float, and \<open>std::pow\<close> on a positive finite base (a NaN base gives NaN except for the
  exponent 0).
\<close>

definition exactOps :: floatOps where
  "exactOps =
     \<lparr>rnd = (\<lambda>x. x),
      FLT_MAX = 340282346638528859811704183484516925440,
      powF = (\<lambda>a b. case (a, b) of
                (Fin x, Fin e) \<Rightarrow> if 0 < x then Fin (x powr e) else NaN
              | (NaN, Fin e) \<Rightarrow> if e = 0 then Fin 1 else NaN
              | _ \<Rightarrow> NaN)\<rparr>"

text \<open>
  IEEE single precision: a real is rounded to the nearest float with 24 significant bits,
  a tie to the one whose last bit is 0; below \<open>2^-126\<close> the floats keep the spacing of
  the subnormal range.
\<close>

definition roundSingle :: "real \<Rightarrow> real" where
  "roundSingle x =
     (if x = 0 then 0
      else (let e = max \<lfloor>log 2 \<bar>x\<bar>\<rfloor> (- 126);
                u = 2 powr (of_int e - 23);
                q = x / u;
                f = \<lfloor>q\<rfloor>
            in if q - of_int f < 1 / 2 then of_int f * u
               else if 1 / 2 < q - of_int f then (of_int f + 1) * u
               else if even f then of_int f * u else (of_int f + 1) * u))"

text \<open>
  Another instance: single precision, with a \<open>std::pow\<close> that returns the float nearest
  to the power on a positive finite base.
\<close>

definition singleOps :: floatOps where
  "singleOps =
     \<lparr>rnd = roundSingle,
      FLT_MAX = 340282346638528859811704183484516925440,
      powF = (\<lambda>a b. case (a, b) of
                (Fin x, Fin e) \<Rightarrow>
                  if 0 < x
                  then (let y = roundSingle (x powr e)
                        in if 340282346638528859811704183484516925440 < y then PInf else Fin y)
                  else NaN
              | (NaN, Fin e) \<Rightarrow> if e = 0 then Fin 1 else NaN
              | _ \<Rightarrow> NaN)\<rparr>"

section \<open>The sample grid (Brdf/SampleSet.cpp)\<close>

datatype ColorModel = MONOCHROMATIC_MODEL | RGB_MODEL | XYZ_MODEL | SPECTRAL_MODEL

type_synonym Spectrum = "scalar list"

text \<open>
  Modelled from the spec: the class declaration and the accessors of SampleSet.h
  (\<open>getSpectrum\<close>, \<open>setSpectrum\<close>, \<open>getNumAnglesN\<close>, \<open>getNumWavelengths\<close>) are not part
  of the sources at hand.  The members are those that SampleSet.cpp uses; following the
  spec, the sample array is a mapping from the 4-tuple of axis indices to a spectrum,
  and the number of angles of an axis is the size of its array.
\<close>

record SampleSet =
  angles0 :: "scalar list"
  angles1 :: "scalar list"
  angles2 :: "scalar list"
  angles3 :: "scalar list"
  wavelengths :: "scalar list"
  spectra :: "nat \<times> nat \<times> nat \<times> nat \<Rightarrow> Spectrum"
  colorModel :: ColorModel
  equalIntervalAngles0 :: bool
  equalIntervalAngles1 :: bool
  equalIntervalAngles2 :: bool
  equalIntervalAngles3 :: bool
  oneSide :: bool

definition getNumAngles0 :: "SampleSet \<Rightarrow> nat" where
  "getNumAngles0 ss = length (angles0 ss)"

definition getNumAngles1 :: "SampleSet \<Rightarrow> nat" where
  "getNumAngles1 ss = length (angles1 ss)"

definition getNumAngles2 :: "SampleSet \<Rightarrow> nat" where
  "getNumAngles2 ss = length (angles2 ss)"

definition getNumAngles3 :: "SampleSet \<Rightarrow> nat" where
  "getNumAngles3 ss = length (angles3 ss)"


definition getSpectrum :: "SampleSet \<Rightarrow> nat \<Rightarrow> nat \<Rightarrow> nat \<Rightarrow> nat \<Rightarrow> Spectrum" where
  "getSpectrum ss i0 i1 i2 i3 = spectra ss (i0, i1, i2, i3)"

definition setSpectrum :: "SampleSet \<Rightarrow> nat \<Rightarrow> nat \<Rightarrow> nat \<Rightarrow> nat \<Rightarrow> Spectrum \<Rightarrow> SampleSet" where
  "setSpectrum ss i0 i1 i2 i3 sp = ss\<lparr>spectra := (spectra ss)((i0, i1, i2, i3) := sp)\<rparr>"

subsection \<open>validate\<close>

text \<open>The lines \<open>validate\<close> sends to the log (lbInfo and lbWarn).\<close>

datatype logLine =
    WarnSpectrumNaN nat nat nat nat
  | WarnSpectrumInf nat nat nat nat
  | InfoSpectraValid
  | WarnSpectraInvalid
  | InfoAngleValid nat
  | WarnAngleInvalid nat
  | InfoWavelengthsValid
  | WarnWavelengthsInvalid

text \<open>
  The four nested loops over \<open>i0\<close>, \<open>i1\<close>, \<open>i2\<close>, \<open>i3\<close> (outermost first), as the
  list of index tuples in the order the loops visit them.
\<close>

definition cellIndices :: "SampleSet \<Rightarrow> (nat \<times> nat \<times> nat \<times> nat) list" where
  "cellIndices ss =
     concat (map (\<lambda>i0.
       concat (map (\<lambda>i1.
         concat (map (\<lambda>i2.
           map (\<lambda>i3. (i0, i1, i2, i3)) [0..<length (angles3 ss)])
         [0..<length (angles2 ss)]))
       [0..<length (angles1 ss)]))
     [0..<length (angles0 ss)])"

text \<open>The loop body: the state is the flag \<open>spectraValid\<close> and the log.\<close>

fun validateCell :: "SampleSet \<Rightarrow> nat \<times> nat \<times> nat \<times> nat \<Rightarrow> bool \<times> logLine list
                       \<Rightarrow> bool \<times> logLine list" where
  "validateCell ss (i0, i1, i2, i3) (spectraValid, lg) =
     (let sp = getSpectrum ss i0 i1 i2 i3 in
      if \<not> allFinite sp
      then (False, lg @ [if hasNaN sp then WarnSpectrumNaN i0 i1 i2 i3
                                     else WarnSpectrumInf i0 i1 i2 i3])
      else (spectraValid, lg))"

text \<open>One of the five checks of an array after the spectra: it clears \<open>valid\<close> and warns, or informs.\<close>

definition checkArray :: "scalar list \<Rightarrow> logLine \<Rightarrow> logLine \<Rightarrow> bool \<times> logLine list
                            \<Rightarrow> bool \<times> logLine list" where
  "checkArray arr ok bad st =
     (if allFinite arr then (fst st, snd st @ [ok]) else (False, snd st @ [bad]))"

text \<open>
  \<open>validate\<close> is a \<open>const\<close> member: it reads the grid and returns the flag \<open>valid\<close>; its
  only effect is on the log, returned as the second component.
\<close>

definition validate :: "SampleSet \<Rightarrow> bool \<times> logLine list" where
  "validate ss =
     (let (spectraValid, lg) = fold (validateCell ss) (cellIndices ss) (True, []);
          st = (if spectraValid then (True, lg @ [InfoSpectraValid])
                else (False, lg @ [WarnSpectraInvalid]));
          st = checkArray (angles0 ss) (InfoAngleValid 0) (WarnAngleInvalid 0) st;
          st = checkArray (angles1 ss) (InfoAngleValid 1) (WarnAngleInvalid 1) st;
          st = checkArray (angles2 ss) (InfoAngleValid 2) (WarnAngleInvalid 2) st;
          st = checkArray (angles3 ss) (InfoAngleValid 3) (WarnAngleInvalid 3) st;
          st = checkArray (wavelengths ss) InfoWavelengthsValid WarnWavelengthsInvalid st
      in st)"

subsection \<open>updateOneSide\<close>

text \<open>
  The body of the loop of \<open>updateOneSide\<close>: the state is the pair of flags
  \<open>containing_0_PI\<close> and \<open>containing_PI_2PI\<close>.
\<close>

fun oneSideStep :: "real \<Rightarrow> scalar \<Rightarrow> bool \<times> bool \<Rightarrow> bool \<times> bool" where
  "oneSideStep offset angle (containing_0_PI, containing_PI_2PI) =
     (let c0 = (if gt angle offset \<and> lt angle (PI_F - offset * PI_F)
                then True else containing_0_PI);
          c1 = (if gt angle (PI_F + offset * PI_F) \<and> lt angle (2 * PI_F - offset * 2 * PI_F)
                then True else containing_PI_2PI)
      in (c0, c1))"

text \<open>
  \<open>updateOneSide\<close> stores the flag in the grid.  The constant \<open>EPSILON_F\<close> of
  Common/Utility.h is not part of the sources at hand and is the first argument.  The
  line sent to the log is left out.
\<close>

definition updateOneSide :: "real \<Rightarrow> SampleSet \<Rightarrow> SampleSet" where
  "updateOneSide EPSILON_F ss =
     (let offset = EPSILON_F * 2;
          (containing_0_PI, containing_PI_2PI) =
             fold (oneSideStep offset) (angles3 ss) (False, False)
      in ss\<lparr>oneSide := (\<not> containing_0_PI \<or> \<not> containing_PI_2PI)\<rparr>)"

text \<open>
  The rule as the specification words it, with one margin \<open>\<epsilon>\<close> on every end of the
  two intervals; used only to compare it with \<open>updateOneSide\<close>.
\<close>

definition oneSideSpec :: "real \<Rightarrow> scalar list \<Rightarrow> bool" where
  "oneSideSpec \<epsilon> axis3 =
     (let seenLowerHalf = list_ex (\<lambda>a. gt a \<epsilon> \<and> lt a (pi - \<epsilon>)) axis3;
          seenUpperHalf = list_ex (\<lambda>a. gt a (pi + \<epsilon>) \<and> lt a (2 * pi - \<epsilon>)) axis3
      in \<not> seenLowerHalf \<or> \<not> seenUpperHalf)"

text \<open>Degrees as radians, for the examples of the specification.\<close>

definition deg :: "real \<Rightarrow> real" where
  "deg d = d * pi / 180"

section \<open>Array utilities (Common/Array.h)\<close>

text \<open>
  Eigen's \<open>LinSpaced(size, low, high)\<close>: \<open>size\<close> values from \<open>low\<close> to \<open>high\<close> in equal
  steps; for size 1 the single value is \<open>high\<close>.
\<close>

definition LinSpaced :: "nat \<Rightarrow> real \<Rightarrow> real \<Rightarrow> real list" where
  "LinSpaced n low high =
     (if n = 1 then [high]
      else map (\<lambda>i. low + real i * (high - low) / real (n - 1)) [0..<n])"

subsection \<open>createExponential\<close>

text \<open>
  The body of the loop, for the element \<open>x = arr[i]\<close>: \<open>ratio = x / maxValue\<close>, then
  \<open>std::pow\<close>, then the product with \<open>maxValue\<close>, each a float operation.
\<close>

definition warp :: "floatOps \<Rightarrow> real \<Rightarrow> real \<Rightarrow> real \<Rightarrow> scalar" where
  "warp ar maxValue exponent x =
     (let ratio = divF ar (Fin x) (Fin maxValue);
          ratio = powF ar ratio (Fin exponent)
      in mulF ar ratio (Fin maxValue))"

text \<open>
  The loop \<open>for (i = 1; i < arr.size() - 1; ++i)\<close>, updating the array in place.  Each
  step reads the element that it replaces, which no earlier step has changed.
\<close>

definition createExponential :: "floatOps \<Rightarrow> nat \<Rightarrow> real \<Rightarrow> real \<Rightarrow> scalar list" where
  "createExponential ar numElements maxValue exponent =
     (let arr = LinSpaced numElements 0 maxValue
      in fold (\<lambda>i a. a[i := warp ar maxValue exponent (arr ! i)])
              [1..<length arr - 1] (map Fin arr))"


subsection \<open>isEqualInterval\<close>

text \<open>
  The loop of \<open>isEqualInterval\<close> over the indices still to visit; it returns at the first
  element that differs.  The template is taken at arrays of finite values.  \<open>isEqual\<close>
  (Common/Utility.h) is not part of the sources at hand and is an argument.
\<close>

fun equalIntervalLoop :: "(real \<Rightarrow> real \<Rightarrow> bool) \<Rightarrow> real list \<Rightarrow> real \<Rightarrow> nat list \<Rightarrow> bool" where
  "equalIntervalLoop isEqual array interval [] = True"
| "equalIntervalLoop isEqual array interval (i # is) =
     (if \<not> isEqual (array ! i) (interval * real i) then False
      else equalIntervalLoop isEqual array interval is)"

definition isEqualInterval :: "(real \<Rightarrow> real \<Rightarrow> bool) \<Rightarrow> real list \<Rightarrow> bool" where
  "isEqualInterval isEqual array =
     (if length array \<le> 2 then False
      else let interval = array ! (length array - 1) / real (length array - 1)
           in equalIntervalLoop isEqual array interval [0..<length array])"

text \<open>
  Modelled from the spec: \<open>isEqual\<close> of Common/Utility.h, which the spec describes as
  equality "within a small relative/absolute tolerance": the difference is at most the
  larger of an absolute tolerance and a tolerance relative to the magnitudes.  It is
  used as one instance of the argument of \<open>isEqualInterval\<close>.
\<close>

definition isEqualTol :: "real \<Rightarrow> real \<Rightarrow> real \<Rightarrow> real \<Rightarrow> bool" where
  "isEqualTol absTol relTol lhs rhs =
     (\<bar>lhs - rhs\<bar> \<le> max absTol (relTol * max \<bar>lhs\<bar> \<bar>rhs\<bar>))"

subsection \<open>findBounds\<close>

text \<open>
  Modelled from the spec: \<open>findBounds\<close> is declared in Common/Array.h, its body is not
  part of the sources at hand.  The spec: it returns the bracketing pair of indices and
  values; a query below the first or above the last element gets the two nearest
  boundary samples; with \<open>equalIntervalValues\<close> the bounds come from a direct division,
  otherwise from a binary search over the ascending sequence; for one element both
  bounds are index 0.  An empty sequence has no bounds (\<open>None\<close>).
\<close>

function lowerBound :: "real list \<Rightarrow> real \<Rightarrow> nat \<Rightarrow> nat \<Rightarrow> nat" where
  "lowerBound values v lo hi =
     (if lo < hi
      then (let mid = (lo + hi) div 2
            in if values ! mid < v then lowerBound values v (mid + 1) hi
               else lowerBound values v lo mid)
      else lo)"
  by pat_completeness auto
termination
  by (relation "measure (\<lambda>(values, v, lo, hi). hi - lo)") auto

definition findBounds :: "real list \<Rightarrow> real \<Rightarrow> bool \<Rightarrow> (int \<times> int \<times> real \<times> real) option" where
  "findBounds values v equalIntervalValues =
     (if values = [] then None
      else if length values = 1 then Some (0, 0, values ! 0, values ! 0)
      else
        let backIndex = int (length values) - 1;
            lowerIndex =
              (if equalIntervalValues
               then min (max \<lfloor>v / (values ! nat backIndex / real_of_int backIndex)\<rfloor> 0)
                        (backIndex - 1)
               else min (max (int (lowerBound values v 0 (length values))) 1) backIndex - 1);
            upperIndex = lowerIndex + 1
        in Some (lowerIndex, upperIndex, values ! nat lowerIndex, values ! nat upperIndex))"

section \<open>Float arithmetic on scalars\<close>

text \<open>
  The product of a scalar with a finite float, the sum of two scalars, and the
  coefficient-wise maximum with 0 and minimum with a finite bound (\<open>cwiseMax(0.0)\<close>,
  \<open>cwiseMin(maxValue)\<close>, \<open>std::min\<close>), with the IEEE rules for the non-finite values.
  Eigen leaves the result of \<open>cwiseMax\<close> and \<open>cwiseMin\<close> on NaN to the platform; the
  model propagates NaN, and no theorem below depends on that choice.
\<close>

fun fmul :: "scalar \<Rightarrow> real \<Rightarrow> scalar" where
  "fmul (Fin x) c = Fin (x * c)"
| "fmul PInf c = (if c > 0 then PInf else if c < 0 then NInf else NaN)"
| "fmul NInf c = (if c > 0 then NInf else if c < 0 then PInf else NaN)"
| "fmul NaN c = NaN"


fun fmax0 :: "scalar \<Rightarrow> scalar" where
  "fmax0 (Fin x) = Fin (max x 0)"
| "fmax0 PInf = PInf"
| "fmax0 NInf = Fin 0"
| "fmax0 NaN = NaN"

fun fmin :: "scalar \<Rightarrow> real \<Rightarrow> scalar" where
  "fmin (Fin x) m = Fin (min x m)"
| "fmin PInf m = Fin m"
| "fmin NInf m = NInf"
| "fmin NaN m = NaN"

text \<open>A scalar is at most a finite bound, and is not negative (false for NaN).\<close>

fun le :: "scalar \<Rightarrow> real \<Rightarrow> bool" where
  "le (Fin x) b = (x \<le> b)"
| "le PInf b = False"
| "le NInf b = True"
| "le NaN b = False"

fun nonNegative :: "scalar \<Rightarrow> bool" where
  "nonNegative (Fin x) = (0 \<le> x)"
| "nonNegative PInf = True"
| "nonNegative NInf = False"
| "nonNegative NaN = False"

section \<open>BRDF objects\<close>

text \<open>
  Modelled from the spec: the enumerations and the classes \<open>Brdf\<close> and
  \<open>SpecularCoordinatesBrdf\<close> are declared in headers that are not part of the sources at
  hand.  A BRDF owns a sample grid and a source type; \<open>kind\<close> is its dynamic type, which
  the code probes with \<open>dynamic_cast\<close>.  In the canonical (specular) grid the four axes
  are incoming polar, incoming azimuth, specular polar and specular azimuth, in this
  order; a grid is isotropic when it has one incoming azimuth.
\<close>

datatype SourceType = MEASURED_SOURCE | GENERATED_SOURCE | EDITED_SOURCE | UNKNOWN_SOURCE

datatype DataType = BRDF_DATA | BTDF_DATA | UNKNOWN_DATA

datatype BrdfKind = SpecularCoordinates | SphericalCoordinates | OtherCoordinates

record Brdf =
  sampleSet :: SampleSet
  sourceType :: SourceType
  kind :: BrdfKind
  specularOffsets :: "scalar list"


definition getNumInTheta :: "Brdf \<Rightarrow> nat" where
  "getNumInTheta brdf = getNumAngles0 (sampleSet brdf)"

definition getNumInPhi :: "Brdf \<Rightarrow> nat" where
  "getNumInPhi brdf = getNumAngles1 (sampleSet brdf)"

definition getNumSpecTheta :: "Brdf \<Rightarrow> nat" where
  "getNumSpecTheta brdf = getNumAngles2 (sampleSet brdf)"

definition getNumSpecPhi :: "Brdf \<Rightarrow> nat" where
  "getNumSpecPhi brdf = getNumAngles3 (sampleSet brdf)"



definition getSpecTheta :: "Brdf \<Rightarrow> nat \<Rightarrow> scalar" where
  "getSpecTheta brdf i = angles2 (sampleSet brdf) ! i"

definition getSpecPhi :: "Brdf \<Rightarrow> nat \<Rightarrow> scalar" where
  "getSpecPhi brdf i = angles3 (sampleSet brdf) ! i"

text \<open>
  The functions and constants that the writer calls and whose code is not part of the
  sources at hand (Common/Utility.h, Common/SpectrumUtility.h, Common/Version.h,
  Brdf/Processor.h, Brdf/SpecularCoordinatesBrdf.h, Brdf/SpecularCoordinateSystem.h)
  are the fields of one argument.  \<open>sampleAt\<close> is the value of a BRDF at the direction
  pair given by four canonical angles; \<open>fromSpherical\<close> is the constructor
  \<open>SpecularCoordinatesBrdf(spheBrdf, numSpecTheta, numSpecPhi)\<close>; \<open>writerFloat\<close> holds the
  float operations of \<open>createExponential\<close>.
\<close>

record externals =
  getVersion :: string
  toDegree :: "scalar \<Rightarrow> scalar"
  xyzToSrgb :: "Spectrum \<Rightarrow> Spectrum"
  sampleAt :: "Brdf \<Rightarrow> scalar \<Rightarrow> scalar \<Rightarrow> scalar \<Rightarrow> scalar \<Rightarrow> Spectrum"
  fromSpherical :: "Brdf \<Rightarrow> nat \<Rightarrow> nat \<Rightarrow> Brdf"
  equalizeOverlappingSamples :: "Brdf \<Rightarrow> Brdf"
  expandAngles :: "Brdf \<Rightarrow> Brdf"
  copySpectraFromPhiOf0To360 :: "SampleSet \<Rightarrow> SampleSet"
  fixEnergyConservation :: "Brdf \<Rightarrow> Brdf"
  fillSpectraAtInThetaOf90 :: "Brdf \<Rightarrow> scalar \<Rightarrow> Brdf"
  MAX_ANGLE0 :: real
  MAX_ANGLE1 :: real
  MAX_ANGLE2 :: real
  MAX_ANGLE3 :: real
  writerFloat :: floatOps


section \<open>The DDR writer (Writer/DdrWriter.cpp)\<close>

text \<open>What \<open>operator<<\<close> appends to the stream: a string, an integer, a float, \<open>std::endl\<close>.\<close>

datatype token = Str string | Num nat | Val scalar | Endl

subsection \<open>output\<close>

text \<open>
  The innermost statements of \<open>output\<close> (lines 180 to 189): the float written for one cell
  and one channel.  The channel is read at \<open>wlIndex\<close>, which is within the spectrum when
  every spectrum has as many channels as the grid has wavelengths.
\<close>

definition outputValue :: "externals \<Rightarrow> Brdf \<Rightarrow> nat \<Rightarrow> nat \<Rightarrow> nat \<Rightarrow> nat \<Rightarrow> nat \<Rightarrow> scalar" where
  "outputValue ex brdf wlIndex inPhIndex inThIndex spPhIndex spThIndex =
     (let sp = getSpectrum (sampleSet brdf) inThIndex inPhIndex spThIndex spPhIndex;
          sp = map fmax0 sp
      in if colorModel (sampleSet brdf) = XYZ_MODEL
         then (let rgb = xyzToSrgb ex sp in fmul (rgb ! wlIndex) PI_F)
         else fmul (sp ! wlIndex) PI_F)"

text \<open>The loop over \<open>spThIndex\<close> and the end of line after it: one row of the block.\<close>

definition outputRow :: "externals \<Rightarrow> Brdf \<Rightarrow> nat \<Rightarrow> nat \<Rightarrow> nat \<Rightarrow> nat \<Rightarrow> token list" where
  "outputRow ex brdf wlIndex inPhIndex inThIndex spPhIndex =
     concat (map (\<lambda>spThIndex.
                [Str '' '', Val (outputValue ex brdf wlIndex inPhIndex inThIndex spPhIndex spThIndex)])
             [0..<getNumSpecTheta brdf])
     @ [Endl]"







text \<open>
  The older copy of \<open>output\<close> that follows \<open>setupTabularBrdf\<close> in
  ReflectanceModel/ReflectanceModelUtility.cpp: its innermost statements (lines 217 to
  225) read the spectrum and write the channel with neither validation nor clamping.
\<close>

definition outputValueOld :: "externals \<Rightarrow> Brdf \<Rightarrow> nat \<Rightarrow> nat \<Rightarrow> nat \<Rightarrow> nat \<Rightarrow> nat \<Rightarrow> scalar" where
  "outputValueOld ex brdf wlIndex inPhIndex inThIndex spPhIndex spThIndex =
     (let sp = getSpectrum (sampleSet brdf) inThIndex inPhIndex spThIndex spPhIndex
      in if colorModel (sampleSet brdf) = XYZ_MODEL
         then (let rgb = xyzToSrgb ex sp in fmul (rgb ! wlIndex) PI_F)
         else fmul (sp ! wlIndex) PI_F)"

subsection \<open>convert and arrange\<close>




subsection \<open>write\<close>




section \<open>Tabulation of a reflectance model (ReflectanceModel/ReflectanceModelUtility.cpp)\<close>

type_synonym Vec3 = "real \<times> real \<times> real"

text \<open>
  The reflectance model (an abstract class; its value at a pair of directions has three
  channels) and the functions of the BRDF classes that \<open>setupTabularBrdf\<close> calls, none of
  them part of the sources at hand, are the fields of one argument.
  \<open>getInOutDirection\<close> is the virtual member of the BRDF being filled, which computes
  the two directions from a set of angle indices; \<open>backSideSpectrum\<close> is the spectrum
  that \<open>fillBackSide\<close> puts into a cell of the back side; \<open>modelFloat\<close> holds the float
  operations of the mean \<open>values.sum() / 3.0f\<close>.
\<close>

record tabulation =
  getBrdfValue :: "Vec3 \<Rightarrow> Vec3 \<Rightarrow> scalar \<times> scalar \<times> scalar"
  getInOutDirection :: "nat \<Rightarrow> nat \<Rightarrow> nat \<Rightarrow> nat \<Rightarrow> Vec3 \<times> Vec3"
  isDownwardDir :: "Vec3 \<Rightarrow> bool"
  backSideSpectrum :: "Brdf \<Rightarrow> nat \<times> nat \<times> nat \<times> nat \<Rightarrow> Spectrum"
  modelFloat :: floatOps

text \<open>Eigen's \<open>normalize()\<close> on a vector that is not the null vector.\<close>

definition normalize :: "Vec3 \<Rightarrow> Vec3" where
  "normalize v =
     (case v of (x, y, z) \<Rightarrow>
        (let n = sqrt (x * x + y * y + z * z) in (x / n, y / n, z / n)))"

text \<open>
  A call either returns or stops at an \<open>assert\<close> that does not hold.
\<close>

datatype 'a outcome = AssertionFailed | Returned 'a

text \<open>
  The loops of \<open>setupTabularBrdf\<close>: \<open>i2\<close> is the outermost (its iterations are shared
  among threads, each writing cells of its own \<open>i2\<close>), then \<open>i0\<close>, \<open>i1\<close>, \<open>i3\<close>.
\<close>

definition tabulationIndices :: "SampleSet \<Rightarrow> (nat \<times> nat \<times> nat \<times> nat) list" where
  "tabulationIndices ss =
     concat (map (\<lambda>i2.
       concat (map (\<lambda>i0.
         concat (map (\<lambda>i1.
           map (\<lambda>i3. (i0, i1, i2, i3)) [0..<getNumAngles3 ss])
         [0..<getNumAngles1 ss]))
       [0..<getNumAngles0 ss]))
     [0..<getNumAngles2 ss])"

text \<open>The directions handed to the model for one cell (lines 52 to 67).\<close>

definition modelDirections :: "DataType \<Rightarrow> Vec3 \<times> Vec3 \<Rightarrow> Vec3 \<times> Vec3" where
  "modelDirections dataType dirs =
     (case dirs of ((ix, iy, iz), (ox, oy, oz)) \<Rightarrow>
        (let minZ = 0.001;
             iz = max iz minZ;
             oz = max oz minZ;
             ox = (if \<bar>ox\<bar> \<le> minZ \<and> \<bar>oy\<bar> \<le> minZ \<and> oz \<le> minZ then 1 else ox);
             inDir = normalize (ix, iy, iz);
             outDir = normalize (ox, oy, oz);
             outDir = (if dataType = BTDF_DATA
                       then (case outDir of (x, y, z) \<Rightarrow> (x, y, - z)) else outDir)
         in (inDir, outDir)))"

text \<open>The outgoing direction of a cell points downward.\<close>

definition cellDownward :: "tabulation \<Rightarrow> nat \<times> nat \<times> nat \<times> nat \<Rightarrow> bool" where
  "cellDownward tb c =
     (case c of (i0, i1, i2, i3) \<Rightarrow>
        isDownwardDir tb (snd (getInOutDirection tb i0 i1 i2 i3)))"

text \<open>
  Modelled from the spec: \<open>fillBackSide\<close> (Brdf/Processor.h) is not part of the sources at
  hand.  Following the spec, it fills the cells whose outgoing direction points into the
  impossible hemisphere, which are the cells that the loop of \<open>setupTabularBrdf\<close>
  leaves out, by mirroring an adjacent sample or with zeros, and it leaves every other
  cell as it is.  The spectrum that it puts into a cell is an argument.
\<close>

definition fillBackSide :: "tabulation \<Rightarrow> Brdf \<Rightarrow> Brdf" where
  "fillBackSide tb spBrdf =
     spBrdf\<lparr>sampleSet := (sampleSet spBrdf)\<lparr>spectra :=
        (\<lambda>c. if cellDownward tb c then backSideSpectrum tb spBrdf c
             else spectra (sampleSet spBrdf) c)\<rparr>\<rparr>"

text \<open>
  The spectrum stored for the model value \<open>values\<close> (lines 72 to 79).  The minimum with
  \<open>maxValue\<close> is exact; the sum of the three channels and its quotient by 3 are float
  operations.  Eigen's \<open>sum()\<close> is not part of the sources at hand: the channels are
  added in the order of their indices.
\<close>

definition cappedSpectrum :: "floatOps \<Rightarrow> ColorModel \<Rightarrow> real \<Rightarrow> scalar \<times> scalar \<times> scalar
                                \<Rightarrow> Spectrum" where
  "cappedSpectrum ar cm maxValue values =
     (case values of (r, g, b) \<Rightarrow>
        if cm = RGB_MODEL
        then map (\<lambda>v. fmin v maxValue) [r, g, b]
        else [fmin (divF ar (addF ar (addF ar r g) b) (Fin 3)) maxValue])"

text \<open>The body of the innermost loop, on the BRDF being filled.\<close>

definition tabulateCell :: "tabulation \<Rightarrow> DataType \<Rightarrow> real \<Rightarrow> bool \<Rightarrow> ColorModel
                               \<Rightarrow> nat \<times> nat \<times> nat \<times> nat \<Rightarrow> Brdf outcome \<Rightarrow> Brdf outcome" where
  "tabulateCell tb dataType maxValue backSideFillable cm c st =
     (case st of
        AssertionFailed \<Rightarrow> AssertionFailed
      | Returned brdf \<Rightarrow>
          (case c of (i0, i1, i2, i3) \<Rightarrow>
             (let dirs = getInOutDirection tb i0 i1 i2 i3
              in if backSideFillable \<and> isDownwardDir tb (snd dirs) then Returned brdf
                 else (let (inDir, outDir) = modelDirections dataType dirs;
                           values = getBrdfValue tb inDir outDir
                       in case values of (r, g, b) \<Rightarrow>
                          if \<not> allFinite [r, g, b] then AssertionFailed
                          else Returned (brdf\<lparr>sampleSet :=
                                 setSpectrum (sampleSet brdf) i0 i1 i2 i3
                                   (cappedSpectrum (modelFloat tb) cm maxValue values)\<rparr>)))))"

text \<open>
  \<open>setupTabularBrdf\<close> returns its flag and the BRDF as the call leaves it.  The line
  sent to \<open>std::cerr\<close> is left out.
\<close>

definition setupTabularBrdf :: "tabulation \<Rightarrow> Brdf \<Rightarrow> DataType \<Rightarrow> real \<Rightarrow> (bool \<times> Brdf) outcome" where
  "setupTabularBrdf tb brdf dataType maxValue =
     (let ss = sampleSet brdf; cm = colorModel ss
      in if cm \<noteq> RGB_MODEL \<and> cm \<noteq> MONOCHROMATIC_MODEL then Returned (False, brdf)
         else (let backSideFillable = (kind brdf = SpecularCoordinates)
               in case fold (tabulateCell tb dataType maxValue backSideFillable cm)
                            (tabulationIndices ss) (Returned brdf) of
                    AssertionFailed \<Rightarrow> AssertionFailed
                  | Returned filled \<Rightarrow>
                      Returned (True, if backSideFillable then fillBackSide tb filled
                                      else filled)))"

section \<open>Example grids\<close>

text \<open>
  The grid of the end-to-end example of the specification: one incoming polar angle, one
  incoming azimuth, specular polar angles 0, 45 and 90 degrees, specular azimuths 0 and
  180 degrees, three channels (RGB); every channel of every cell holds \<open>v\<close>.
\<close>

definition exampleGrid :: "scalar \<Rightarrow> SampleSet" where
  "exampleGrid v =
     \<lparr>angles0 = [Fin 0], angles1 = [Fin 0],
      angles2 = [Fin 0, Fin (pi / 4), Fin (pi / 2)],
      angles3 = [Fin 0, Fin pi],
      wavelengths = [Fin 0, Fin 0, Fin 0],
      spectra = (\<lambda>c. [v, v, v]),
      colorModel = RGB_MODEL,
      equalIntervalAngles0 = False, equalIntervalAngles1 = False,
      equalIntervalAngles2 = False, equalIntervalAngles3 = False,
      oneSide = False\<rparr>"

text \<open>
  The machine epsilon of a float, \<open>std::numeric_limits<float>::epsilon()\<close>, as a value
  of \<open>EPSILON_F\<close> for the examples.
\<close>

definition machineEpsilon :: real where
  "machineEpsilon = 1 / 2 ^ 23"

text \<open>
  A grid with two azimuths: one just below \<open>\<pi>\<close> (three epsilons below) and one at 270
  degrees.
\<close>

definition oneSideExample :: SampleSet where
  "oneSideExample =
     (exampleGrid (Fin 1))\<lparr>angles3 := [Fin (pi - 3 * machineEpsilon), Fin (3 * pi / 2)]\<rparr>"

section \<open>Example instances of the absent functions\<close>

text \<open>
  The linear map from CIE XYZ to sRGB primaries (the usual D65 matrix) on three finite
  channels, as one instance of \<open>xyzToSrgb\<close>.
\<close>

fun linearXyzToSrgb :: "Spectrum \<Rightarrow> Spectrum" where
  "linearXyzToSrgb [Fin x, Fin y, Fin z] =
     [Fin (3.2406 * x - 1.5372 * y - 0.4986 * z),
      Fin (- 0.9689 * x + 1.8758 * y + 0.0415 * z),
      Fin (0.0557 * x - 0.2040 * y + 1.0570 * z)]"
| "linearXyzToSrgb sp = sp"

text \<open>
  One instance of the functions that are not part of the sources at hand: degrees from
  radians, the linear conversion above, a constant sample, arrangement steps that
  leave the grid as it is, and float operations that round nothing.
\<close>

definition exampleExternals :: externals where
  "exampleExternals =
     \<lparr>getVersion = ''0'',
      toDegree = (\<lambda>a. fmul a (180 / pi)),
      xyzToSrgb = linearXyzToSrgb,
      sampleAt = (\<lambda>brdf a0 a1 a2 a3. [Fin 1, Fin 1, Fin 1]),
      fromSpherical = (\<lambda>brdf numSpecTheta numSpecPhi. brdf),
      equalizeOverlappingSamples = (\<lambda>brdf. brdf),
      expandAngles = (\<lambda>brdf. brdf),
      copySpectraFromPhiOf0To360 = (\<lambda>ss. ss),
      fixEnergyConservation = (\<lambda>brdf. brdf),
      fillSpectraAtInThetaOf90 = (\<lambda>brdf v. brdf),
      MAX_ANGLE0 = pi / 2, MAX_ANGLE1 = 2 * pi, MAX_ANGLE2 = pi, MAX_ANGLE3 = 2 * pi,
      writerFloat = exactOps\<rparr>"

text \<open>A canonical BRDF on a grid.\<close>

definition specularBrdf :: "SampleSet \<Rightarrow> Brdf" where
  "specularBrdf ss =
     \<lparr>sampleSet = ss, sourceType = MEASURED_SOURCE, kind = SpecularCoordinates,
      specularOffsets = []\<rparr>"

text \<open>The example grid tagged XYZ, every cell holding X = 0, Y = 1, Z = 0.\<close>

definition xyzGrid :: SampleSet where
  "xyzGrid = (exampleGrid (Fin 0))\<lparr>spectra := (\<lambda>c. [Fin 0, Fin 1, Fin 0]),
                                   colorModel := XYZ_MODEL\<rparr>"


section \<open>The loop body of setupTabularBrdf, cell by cell\<close>

text \<open>
  Whether the loop body leaves a cell out (\<open>continue\<close>), the model value it computes
  for a cell, and the condition of the \<open>assert\<close> for every pair of directions.
\<close>

definition cellSkipped :: "tabulation \<Rightarrow> bool \<Rightarrow> nat \<times> nat \<times> nat \<times> nat \<Rightarrow> bool" where
  "cellSkipped tb backSideFillable c =
     (case c of (i0, i1, i2, i3) \<Rightarrow>
        backSideFillable \<and> isDownwardDir tb (snd (getInOutDirection tb i0 i1 i2 i3)))"

definition cellValue :: "tabulation \<Rightarrow> DataType \<Rightarrow> nat \<times> nat \<times> nat \<times> nat
                           \<Rightarrow> scalar \<times> scalar \<times> scalar" where
  "cellValue tb dataType c =
     (case c of (i0, i1, i2, i3) \<Rightarrow>
        (case modelDirections dataType (getInOutDirection tb i0 i1 i2 i3) of
           (inDir, outDir) \<Rightarrow> getBrdfValue tb inDir outDir))"

definition modelFinite :: "tabulation \<Rightarrow> bool" where
  "modelFinite tb =
     (\<forall>inDir outDir. case getBrdfValue tb inDir outDir of (r, g, b) \<Rightarrow> allFinite [r, g, b])"

text \<open>The \<open>assert\<close> of line 70 holds at every cell that the loop does not leave out.\<close>

definition assertsHold :: "tabulation \<Rightarrow> Brdf \<Rightarrow> DataType \<Rightarrow> bool" where
  "assertsHold tb brdf dataType =
     (\<forall>c \<in> set (tabulationIndices (sampleSet brdf)).
        \<not> cellSkipped tb (kind brdf = SpecularCoordinates) c \<longrightarrow>
        (case cellValue tb dataType c of (r, g, b) \<Rightarrow> allFinite [r, g, b]))"

text \<open>
  One instance of the reflectance model and of the BRDF functions: a constant model
  value, the normal direction for every cell, zeros for the back side, and float
  operations that round nothing.
\<close>

definition exampleTabulation :: tabulation where
  "exampleTabulation =
     \<lparr>getBrdfValue = (\<lambda>inDir outDir. (Fin 2, Fin (1 / 2), Fin (1 / 2))),
      getInOutDirection = (\<lambda>i0 i1 i2 i3. ((0, 0, 1), (0, 0, 1))),
      isDownwardDir = (\<lambda>dir. case dir of (x, y, z) \<Rightarrow> z < 0),
      backSideSpectrum = (\<lambda>brdf c. [Fin 0, Fin 0, Fin 0]),
      modelFloat = exactOps\<rparr>"


section \<open>Properties of validate\<close>

lemma set_cellIndices:
  "set (cellIndices ss) =
     {(i0, i1, i2, i3). i0 < length (angles0 ss) \<and> i1 < length (angles1 ss) \<and>
                        i2 < length (angles2 ss) \<and> i3 < length (angles3 ss)}"
  by (auto simp: cellIndices_def image_iff)

lemma fst_fold_validateCell:
  "fst (fold (validateCell ss) cs (b, lg)) =
     (b \<and> (\<forall>c \<in> set cs. allFinite (spectra ss c)))"
proof (induction cs arbitrary: b lg)
  case Nil
  show ?case by simp
next
  case (Cons c cs)
  obtain i0 i1 i2 i3 where c: "c = (i0, i1, i2, i3)"
    by (cases c) auto
  show ?case
    by (auto simp: c Cons.IH getSpectrum_def Let_def)
qed

lemma fst_checkArray:
  "fst (checkArray arr ok bad st) = (fst st \<and> allFinite arr)"
  by (simp add: checkArray_def)

lemma fst_validate:
  "fst (validate ss) =
     ((\<forall>c \<in> set (cellIndices ss). allFinite (spectra ss c)) \<and>
      allFinite (angles0 ss) \<and> allFinite (angles1 ss) \<and> allFinite (angles2 ss) \<and>
      allFinite (angles3 ss) \<and> allFinite (wavelengths ss))"
proof -
  obtain b lg where f: "fold (validateCell ss) (cellIndices ss) (True, []) = (b, lg)"
    by (cases "fold (validateCell ss) (cellIndices ss) (True, [])") auto
  have b: "b = (\<forall>c \<in> set (cellIndices ss). allFinite (spectra ss c))"
    using fst_fold_validateCell [of ss "cellIndices ss" True "[]"] f by simp
  show ?thesis
    unfolding validate_def f
    by (auto simp: fst_checkArray b)
qed

text \<open>
  C8.  \<open>validate\<close> returns true exactly when every spectrum of the grid (at every index
  tuple within the four axes), each of the four angle arrays and the wavelength array
  hold finite values only.  The grid is an argument of the \<open>const\<close> member and no grid
  is returned: the call leaves every axis, spectrum and flag as it was.
\<close>

theorem validate_iff_all_finite:
  "fst (validate ss) \<longleftrightarrow>
     (\<forall>i0 < getNumAngles0 ss. \<forall>i1 < getNumAngles1 ss.
      \<forall>i2 < getNumAngles2 ss. \<forall>i3 < getNumAngles3 ss.
        allFinite (getSpectrum ss i0 i1 i2 i3)) \<and>
     allFinite (angles0 ss) \<and> allFinite (angles1 ss) \<and>
     allFinite (angles2 ss) \<and> allFinite (angles3 ss) \<and>
     allFinite (wavelengths ss)"
  unfolding fst_validate set_cellIndices getSpectrum_def
    getNumAngles0_def getNumAngles1_def getNumAngles2_def getNumAngles3_def
  by auto

theorem validate_iff_all_finite_witness:
  "fst (validate (exampleGrid (Fin 1))) \<and> \<not> fst (validate (exampleGrid NaN))"
  using validate_iff_all_finite [of "exampleGrid (Fin 1)"]
        validate_iff_all_finite [of "exampleGrid NaN"]
  by (auto simp: exampleGrid_def allFinite_def getSpectrum_def
        getNumAngles0_def getNumAngles1_def getNumAngles2_def getNumAngles3_def
      intro: exI [of _ 0])

section \<open>Properties of updateOneSide\<close>

lemma fold_oneSideStep:
  "fold (oneSideStep offset) as (c0, c1) =
     (c0 \<or> list_ex (\<lambda>a. gt a offset \<and> lt a (PI_F - offset * PI_F)) as,
      c1 \<or> list_ex (\<lambda>a. gt a (PI_F + offset * PI_F) \<and> lt a (2 * PI_F - offset * 2 * PI_F)) as)"
  by (induction as arbitrary: c0 c1) (auto simp: Let_def)

lemma oneSide_updateOneSide:
  "oneSide (updateOneSide e ss) =
     (\<not> list_ex (\<lambda>a. gt a (2 * e) \<and> lt a (pi - 2 * e * pi)) (angles3 ss) \<or>
      \<not> list_ex (\<lambda>a. gt a (pi + 2 * e * pi) \<and> lt a (2 * pi - 4 * e * pi)) (angles3 ss))"
proof -
  have a: "e * 2 = 2 * e" "PI_F - e * 2 * PI_F = pi - 2 * e * pi"
    "PI_F + e * 2 * PI_F = pi + 2 * e * pi" "2 * PI_F - e * 2 * 2 * PI_F = 2 * pi - 4 * e * pi"
    by (simp_all add: PI_F_def)
  show ?thesis
    unfolding updateOneSide_def Let_def fold_oneSideStep a
    by (simp add: PI_F_def)
qed

lemma only_lower_half:
  assumes e: "0 \<le> e"
    and a: "\<forall>a \<in> set as. \<exists>x. a = Fin x \<and> 0 < x \<and> x < deg 170"
  shows "\<not> list_ex (\<lambda>a. gt a (pi + 2 * e * pi) \<and> lt a (2 * pi - 4 * e * pi)) as"
proof -
  have ep: "0 \<le> e * pi" using e by simp
  { fix b assume "b \<in> set as"
    then obtain x where x: "b = Fin x" "x < deg 170" using a by blast
    have "x < pi" using x(2) pi_gt_zero unfolding deg_def by linarith
    then have "\<not> gt b (pi + 2 * e * pi)"
      using x(1) ep by simp }
  then show ?thesis by (auto simp: list_ex_iff)
qed

lemma both_halves:
  assumes e: "0 \<le> e" "e < 1 / 72"
    and l: "deg 10 < x" "x < deg 170" and u: "deg 190 < y" "y < deg 350"
  shows "gt (Fin x) (2 * e) \<and> lt (Fin x) (pi - 2 * e * pi) \<and>
         gt (Fin y) (pi + 2 * e * pi) \<and> lt (Fin y) (2 * pi - 4 * e * pi)"
proof -
  have ep: "0 \<le> e * pi" using e by simp
  have ep2: "e * pi < pi / 72"
    using e(2) mult_strict_right_mono [of e "1 / 72" pi] by simp
  have "2 * e < deg 10" using e(2) pi_ge_two by (simp add: deg_def)
  moreover have "deg 170 \<le> pi - 2 * (e * pi)" using ep2 by (simp add: deg_def)
  moreover have "pi + 2 * (e * pi) \<le> deg 190" using ep2 by (simp add: deg_def)
  moreover have "deg 350 \<le> 2 * pi - 4 * (e * pi)" using ep2 by (simp add: deg_def)
  ultimately show ?thesis
    using l u by (simp add: mult.assoc)
qed

text \<open>
  C3 (amended).  For every content of the azimuth axis, \<open>updateOneSide\<close> sets the flag to
  "no value lies strictly inside \<open>(2\<epsilon>, \<pi> - 2\<epsilon>\<pi>)\<close>, or no value lies strictly inside
  \<open>(\<pi> + 2\<epsilon>\<pi>, 2\<pi> - 4\<epsilon>\<pi>)\<close>", where \<open>\<epsilon>\<close> is \<open>EPSILON_F\<close>: the margins are those of the
  code, not one \<open>\<epsilon>\<close> on every end.  For \<open>0 \<le> \<epsilon>\<close> an axis whose values all lie in
  (0, 170 degrees) is flagged one-sided, and for \<open>0 \<le> \<epsilon> < 1/72\<close> an axis with a value in
  (10, 170 degrees) and a value in (190, 350 degrees) is not.
\<close>

theorem updateOneSide_flag:
  "oneSide (updateOneSide e ss) =
     (\<not> list_ex (\<lambda>a. gt a (2 * e) \<and> lt a (pi - 2 * e * pi)) (angles3 ss) \<or>
      \<not> list_ex (\<lambda>a. gt a (pi + 2 * e * pi) \<and> lt a (2 * pi - 4 * e * pi)) (angles3 ss))
   \<and> (0 \<le> e \<longrightarrow> (\<forall>a \<in> set (angles3 ss). \<exists>x. a = Fin x \<and> 0 < x \<and> x < deg 170)
        \<longrightarrow> oneSide (updateOneSide e ss))
   \<and> (0 \<le> e \<and> e < 1 / 72 \<longrightarrow>
        (\<exists>x. Fin x \<in> set (angles3 ss) \<and> deg 10 < x \<and> x < deg 170) \<longrightarrow>
        (\<exists>y. Fin y \<in> set (angles3 ss) \<and> deg 190 < y \<and> y < deg 350) \<longrightarrow>
        \<not> oneSide (updateOneSide e ss))"
proof (intro conjI impI)
  show "oneSide (updateOneSide e ss) =
     (\<not> list_ex (\<lambda>a. gt a (2 * e) \<and> lt a (pi - 2 * e * pi)) (angles3 ss) \<or>
      \<not> list_ex (\<lambda>a. gt a (pi + 2 * e * pi) \<and> lt a (2 * pi - 4 * e * pi)) (angles3 ss))"
    by (rule oneSide_updateOneSide)
next
  assume "0 \<le> e" "\<forall>a \<in> set (angles3 ss). \<exists>x. a = Fin x \<and> 0 < x \<and> x < deg 170"
  then show "oneSide (updateOneSide e ss)"
    using only_lower_half [of e "angles3 ss"] by (simp add: oneSide_updateOneSide)
next
  assume e: "0 \<le> e \<and> e < 1 / 72"
    and "\<exists>x. Fin x \<in> set (angles3 ss) \<and> deg 10 < x \<and> x < deg 170"
    and "\<exists>y. Fin y \<in> set (angles3 ss) \<and> deg 190 < y \<and> y < deg 350"
  then obtain x y where x: "Fin x \<in> set (angles3 ss)" "deg 10 < x" "x < deg 170"
    and y: "Fin y \<in> set (angles3 ss)" "deg 190 < y" "y < deg 350"
    by blast
  have b: "gt (Fin x) (2 * e) \<and> lt (Fin x) (pi - 2 * e * pi)"
     "gt (Fin y) (pi + 2 * e * pi) \<and> lt (Fin y) (2 * pi - 4 * e * pi)"
    using both_halves [of e x y] e x y by simp_all
  have "list_ex (\<lambda>a. gt a (2 * e) \<and> lt a (pi - 2 * e * pi)) (angles3 ss)"
    unfolding list_ex_iff using x(1) b(1) by (rule_tac x = "Fin x" in bexI)
  moreover have "list_ex (\<lambda>a. gt a (pi + 2 * e * pi) \<and> lt a (2 * pi - 4 * e * pi)) (angles3 ss)"
    unfolding list_ex_iff using y(1) b(2) by (rule_tac x = "Fin y" in bexI)
  ultimately show "\<not> oneSide (updateOneSide e ss)"
    by (simp add: oneSide_updateOneSide)
qed


theorem updateOneSide_flag_witness:
  "oneSide (updateOneSide machineEpsilon
      ((exampleGrid (Fin 1))\<lparr>angles3 := [Fin (deg 30), Fin (deg 160)]\<rparr>))
   \<and> \<not> oneSide (updateOneSide machineEpsilon
      ((exampleGrid (Fin 1))\<lparr>angles3 := [Fin (deg 90), Fin (deg 270)]\<rparr>))"
proof -
  let ?g1 = "(exampleGrid (Fin 1))\<lparr>angles3 := [Fin (deg 30), Fin (deg 160)]\<rparr>"
  let ?g2 = "(exampleGrid (Fin 1))\<lparr>angles3 := [Fin (deg 90), Fin (deg 270)]\<rparr>"
  have e: "0 \<le> machineEpsilon" "machineEpsilon < 1 / 72"
    by (simp_all add: machineEpsilon_def)
  have d: "deg 10 < deg 90" "deg 90 < deg 170" "deg 190 < deg 270" "deg 270 < deg 350"
     "0 < deg 30" "deg 30 < deg 170" "0 < deg 160" "deg 160 < deg 170"
    by (simp_all add: deg_def)
  have h1: "\<forall>a \<in> set (angles3 ?g1). \<exists>x. a = Fin x \<and> 0 < x \<and> x < deg 170"
    using d by simp
  have h2: "\<exists>x. Fin x \<in> set (angles3 ?g2) \<and> deg 10 < x \<and> x < deg 170"
    using d by (intro exI [of _ "deg 90"]) simp
  have h3: "\<exists>y. Fin y \<in> set (angles3 ?g2) \<and> deg 190 < y \<and> y < deg 350"
    using d by (intro exI [of _ "deg 270"]) simp
  have "oneSide (updateOneSide machineEpsilon ?g1)"
    using updateOneSide_flag [of machineEpsilon ?g1] e(1) h1 by blast
  moreover have "\<not> oneSide (updateOneSide machineEpsilon ?g2)"
    using updateOneSide_flag [of machineEpsilon ?g2] e h2 h3 by blast
  ultimately show ?thesis by simp
qed

text \<open>
  The rule as the specification words it, with the margin \<open>\<epsilon>\<close> (or \<open>2\<epsilon>\<close>) on every end,
  differs from the code on \<open>oneSideExample\<close>: the value three epsilons below \<open>\<pi>\<close> is
  inside \<open>(\<epsilon>, \<pi> - \<epsilon>)\<close> but not below \<open>\<pi> - 2\<epsilon>\<pi>\<close>, so the code flags the grid one-sided.
\<close>

theorem oneSide_margins_counterexample:
  "oneSide (updateOneSide machineEpsilon oneSideExample)
   \<and> \<not> oneSideSpec machineEpsilon (angles3 oneSideExample)
   \<and> \<not> oneSideSpec (2 * machineEpsilon) (angles3 oneSideExample)"
proof -
  have a3: "angles3 oneSideExample = [Fin (pi - 3 / 8388608), Fin (3 * pi / 2)]"
    by (simp add: oneSideExample_def machineEpsilon_def)
  have m: "machineEpsilon = 1 / 8388608"
    by (simp add: machineEpsilon_def)
  have p: "2 \<le> pi" by (rule pi_ge_two)
  have c1: "\<not> pi - 3 / 8388608 < pi - 2 * (1 / 8388608) * pi"
    using p by linarith
  have c2: "\<not> 3 * pi / 2 < pi - 2 * (1 / 8388608) * pi"
    using p by linarith
  have c3: "1 / 8388608 < pi - 3 / 8388608" "pi - 3 / 8388608 < pi - 1 / 8388608"
     "pi + 1 / 8388608 < 3 * pi / 2" "3 * pi / 2 < 2 * pi - 1 / 8388608"
    using p by linarith+
  have c4: "2 * (1 / 8388608) < pi - 3 / 8388608" "pi - 3 / 8388608 < pi - 2 * (1 / 8388608)"
     "pi + 2 * (1 / 8388608) < 3 * pi / 2" "3 * pi / 2 < 2 * pi - 2 * (1 / 8388608)"
    using p by linarith+
  have "oneSide (updateOneSide machineEpsilon oneSideExample)"
    unfolding oneSide_updateOneSide a3 m using c1 c2 by simp
  moreover have "\<not> oneSideSpec machineEpsilon (angles3 oneSideExample)"
    unfolding oneSideSpec_def a3 m Let_def using c3 by simp
  moreover have "\<not> oneSideSpec (2 * machineEpsilon) (angles3 oneSideExample)"
    unfolding oneSideSpec_def a3 m Let_def using c4 by simp
  ultimately show ?thesis by blast
qed

section \<open>Properties of isEqualInterval\<close>

lemma equalIntervalLoop_iff:
  "equalIntervalLoop isEqual array interval is =
     (\<forall>i \<in> set is. isEqual (array ! i) (interval * real i))"
  by (induction "is") auto

lemma isEqualInterval_short:
  "length array \<le> 2 \<Longrightarrow> \<not> isEqualInterval isEqual array"
  by (simp add: isEqualInterval_def)

lemma isEqualInterval_long:
  "2 < length array \<Longrightarrow>
   isEqualInterval isEqual array =
     (\<forall>i < length array.
        isEqual (array ! i) (array ! (length array - 1) / real (length array - 1) * real i))"
  by (auto simp: isEqualInterval_def equalIntervalLoop_iff Let_def)

lemma multiples_props:
  assumes "2 < n"
  shows "length (map (\<lambda>i. real i * c) [0..<n]) = n"
    and "i < n \<Longrightarrow> map (\<lambda>i. real i * c) [0..<n] ! i = real i * c"
    and "map (\<lambda>i. real i * c) [0..<n] ! (n - 1) / real (n - 1) = c"
  using assms by simp_all

lemma isEqualInterval_multiples:
  assumes r: "\<forall>x. isEqual x x" and n: "2 < n"
  shows "isEqualInterval isEqual (map (\<lambda>i. real i * c) [0..<n])"
proof -
  let ?a = "map (\<lambda>i. real i * c) [0..<n]"
  have "isEqual (?a ! i) (?a ! (length ?a - 1) / real (length ?a - 1) * real i)" if "i < n" for i
  proof -
    have "?a ! (length ?a - 1) / real (length ?a - 1) = c"
      using multiples_props(3) [OF n, of c] by simp
    moreover have "?a ! i = c * real i" using that by (simp add: mult.commute)
    ultimately show ?thesis using r by simp
  qed
  then show ?thesis
    using n by (simp add: isEqualInterval_long)
qed

lemma isEqualInterval_perturbed:
  assumes n: "2 < n" and j: "j < n - 1" and v: "\<not> isEqual v (real j * c)"
  shows "\<not> isEqualInterval isEqual ((map (\<lambda>i. real i * c) [0..<n])[j := v])"
proof -
  let ?a = "(map (\<lambda>i. real i * c) [0..<n])[j := v]"
  have len: "length ?a = n" by simp
  have last: "?a ! (n - 1) = real (n - 1) * c"
    using n j by simp
  have iv: "?a ! (length ?a - 1) / real (length ?a - 1) = c"
    unfolding len last using n by simp
  have aj: "?a ! j = v" using j by simp
  have "\<not> isEqual (?a ! j) (?a ! (length ?a - 1) / real (length ?a - 1) * real j)"
    unfolding iv aj using v by (simp add: mult.commute)
  moreover have "j < length ?a" using j by simp
  ultimately have "\<not> (\<forall>i < length ?a.
        isEqual (?a ! i) (?a ! (length ?a - 1) / real (length ?a - 1) * real i))"
    by blast
  then show ?thesis
    using n isEqualInterval_long [of ?a isEqual] by simp
qed

text \<open>
  C4 (amended).  \<open>isEqualInterval\<close> returns false for every sequence of at most two
  elements; for a longer one it returns true exactly when every element \<open>array[i]\<close> is
  equal, in the sense of \<open>isEqual\<close>, to \<open>i\<close> times the nominal interval
  \<open>array[n - 1] / (n - 1)\<close>.  So, \<open>isEqual\<close> being reflexive, it returns true for every
  sequence of more than two elements \<open>i * c\<close>; and it returns false when one element
  other than the last is replaced by a value that \<open>isEqual\<close> tells apart from \<open>i * c\<close>.
\<close>

theorem isEqualInterval_correct:
  "(length array \<le> 2 \<longrightarrow> \<not> isEqualInterval isEqual array) \<and>
   (2 < length array \<longrightarrow>
      isEqualInterval isEqual array =
        (\<forall>i < length array.
           isEqual (array ! i) (array ! (length array - 1) / real (length array - 1) * real i))) \<and>
   ((\<forall>x. isEqual x x) \<and> 2 < n \<longrightarrow>
      isEqualInterval isEqual (map (\<lambda>i. real i * c) [0..<n])) \<and>
   (2 < n \<and> j < n - 1 \<and> \<not> isEqual v (real j * c) \<longrightarrow>
      \<not> isEqualInterval isEqual ((map (\<lambda>i. real i * c) [0..<n])[j := v]))"
  using isEqualInterval_short [of array isEqual] isEqualInterval_long [of array isEqual]
    isEqualInterval_multiples [of isEqual n c] isEqualInterval_perturbed [of n j isEqual v c]
  by blast

lemma isEqualTol_refl: "0 \<le> absTol \<Longrightarrow> isEqualTol absTol relTol x x"
  by (simp add: isEqualTol_def max_def)

theorem isEqualInterval_correct_witness:
  "\<not> isEqualInterval (isEqualTol (1 / 1000) (1 / 1000000)) [0, 1 / 10]
   \<and> isEqualInterval (isEqualTol (1 / 1000) (1 / 1000000)) [0, 1 / 10, 2 / 10]
   \<and> \<not> isEqualInterval (isEqualTol (1 / 1000) (1 / 1000000)) [0, 15 / 100, 2 / 10]"
proof -
  let ?eq = "isEqualTol (1 / 1000) (1 / 1000000)"
  have r: "\<forall>x. ?eq x x" by (simp add: isEqualTol_refl)
  have m: "map (\<lambda>i. real i * (1 / 10)) [0..<3] = [0, 1 / 10, 2 / 10]"
    by (simp add: upt_rec numeral_3_eq_3)
  have v: "\<not> ?eq (15 / 100) (real 1 * (1 / 10))"
    by (simp add: isEqualTol_def)
  have "\<not> isEqualInterval ?eq [0, 1 / 10]"
    using isEqualInterval_correct [where isEqual = ?eq and array = "[0, 1 / 10]"] by simp
  moreover have "isEqualInterval ?eq [0, 1 / 10, 2 / 10]"
    using isEqualInterval_correct [where isEqual = ?eq and n = 3 and c = "1 / 10"] r
      unfolding m by simp
  moreover have "\<not> isEqualInterval ?eq [0, 15 / 100, 2 / 10]"
    using isEqualInterval_correct [where isEqual = ?eq and n = 3 and j = 1
        and v = "15 / 100" and c = "1 / 10"] v unfolding m by simp
  ultimately show ?thesis by blast
qed

text \<open>
  The last element sets the nominal interval: replacing it moves every expected value.
  With a tolerance of one thousandth, the sequence 0, 0.1, 0.2 with the last element
  moved to 0.2015, beyond the tolerance, is still accepted.
\<close>

theorem isEqualInterval_last_counterexample:
  "isEqualInterval (isEqualTol (1 / 1000) (1 / 1000000)) [0, 1 / 10, 2 / 10]
   \<and> \<not> isEqualTol (1 / 1000) (1 / 1000000) (2015 / 10000) (2 / 10)
   \<and> isEqualInterval (isEqualTol (1 / 1000) (1 / 1000000)) [0, 1 / 10, 2015 / 10000]"
  by (simp add: isEqualInterval_def isEqualTol_def upt_rec numeral_3_eq_3)

section \<open>Properties of createExponential\<close>

lemma length_LinSpaced: "length (LinSpaced n low high) = n"
  by (simp add: LinSpaced_def)

lemma nth_LinSpaced:
  "i < n \<Longrightarrow> n \<noteq> 1 \<Longrightarrow> LinSpaced n low high ! i = low + real i * (high - low) / real (n - 1)"
  by (simp add: LinSpaced_def)


lemma nth_fold_update:
  "k < length a \<Longrightarrow>
   fold (\<lambda>i a. a[i := f i]) is a ! k = (if k \<in> set is then f k else a ! k)"
proof (induction "is" arbitrary: a)
  case Nil
  show ?case by simp
next
  case (Cons i "is")
  have "k < length (a[i := f i])" using Cons.prems by simp
  from Cons.IH [OF this] show ?case
    using Cons.prems by (auto simp: nth_list_update)
qed


lemma nth_createExponential:
  assumes "i < n"
  shows "createExponential ar n m e ! i =
           (if 0 < i \<and> i < n - 1 then warp ar m e (LinSpaced n 0 m ! i)
            else Fin (LinSpaced n 0 m ! i))"
proof -
  have "i < length (map Fin (LinSpaced n 0 m))"
    using assms by (simp add: length_LinSpaced)
  from nth_fold_update [OF this, of "\<lambda>i. warp ar m e (LinSpaced n 0 m ! i)" "[1..<n - 1]"]
  show ?thesis
    using assms by (auto simp: createExponential_def Let_def length_LinSpaced)
qed

lemma warp_unfold:
  "warp ar m e x = mulF ar (powF ar (divF ar (Fin x) (Fin m)) (Fin e)) (Fin m)"
  by (simp add: warp_def Let_def)






lemma toFloat_exactOps:
  "\<bar>x\<bar> \<le> 340282346638528859811704183484516925440 \<Longrightarrow> toFloat exactOps x = Fin x"
  by (auto simp: toFloat_def exactOps_def Let_def)




text \<open>
  Rounding in single precision: the quotient of two floats and the power at one argument.
\<close>

lemma roundSingle_in_binade:
  assumes k: "- 126 \<le> k"
    and lo: "2 powr of_int k \<le> x" and hi: "x < 2 powr of_int (k + 1)"
    and n: "of_int n - 1 / 2 \<le> x / 2 powr (of_int k - 23)"
           "x / 2 powr (of_int k - 23) \<le> of_int n" and od: "even n"
  shows "roundSingle x = of_int n * 2 powr (of_int k - 23)"
proof -
  have x: "0 < x" using lo by (smt (verit) powr_gt_zero)
  have nz: "(x = 0) = False" using x by simp
  have e: "\<lfloor>log 2 \<bar>x\<bar>\<rfloor> = k"
    using x lo hi by (simp add: floor_log_eq_powr_iff)
  have mk: "max k (- 126) = k" using k by simp
  define u :: real where "u = 2 powr (of_int k - 23)"
  define q where "q = x / u"
  have rs: "roundSingle x =
      (if q - of_int \<lfloor>q\<rfloor> < 1 / 2 then of_int \<lfloor>q\<rfloor> * u
       else if 1 / 2 < q - of_int \<lfloor>q\<rfloor> then (of_int \<lfloor>q\<rfloor> + 1) * u
       else if even \<lfloor>q\<rfloor> then of_int \<lfloor>q\<rfloor> * u else (of_int \<lfloor>q\<rfloor> + 1) * u)"
    unfolding roundSingle_def Let_def nz if_False e mk q_def u_def by (rule refl)
  have n': "of_int n - 1 / 2 \<le> q" "q \<le> of_int n"
    using n unfolding q_def u_def by simp_all
  consider "q = of_int n" | "q < of_int n" "of_int n - 1 / 2 < q" | "q = of_int n - 1 / 2"
    using n' by linarith
  then have "roundSingle x = of_int n * u"
  proof cases
    case 1
    then have f: "\<lfloor>q\<rfloor> = n" by simp
    show ?thesis unfolding rs f using 1 by simp
  next
    case 2
    then have f: "\<lfloor>q\<rfloor> = n - 1" by linarith
    have "1 / 2 < q - of_int (n - 1)" using 2 by simp
    then show ?thesis unfolding rs f by simp
  next
    case 3
    then have f: "\<lfloor>q\<rfloor> = n - 1" by linarith
    have h: "q - of_int (n - 1) = 1 / 2" using 3 by simp
    have o: "odd (n - 1)" using od by simp
    show ?thesis unfolding rs f h using o by simp
  qed
  then show ?thesis unfolding u_def .
qed


lemma two_powr_m24: "(2::real) powr (of_int (- 1) - 23) = 1 / 16777216"
proof -
  have "(2::real) powr (of_int (- 1) - 23) = 2 powr (- 24)" by simp
  also have "\<dots> = 1 / 2 powr 24" by (rule powr_minus_divide)
  also have "(2::real) powr 24 = 2 ^ 24" by (rule powr_numeral) simp
  finally show ?thesis by simp
qed

lemma two_powr_m22: "(2::real) powr (of_int 1 - 23) = 1 / 4194304"
proof -
  have "(2::real) powr (of_int 1 - 23) = 2 powr (- 22)" by simp
  also have "\<dots> = 1 / 2 powr 22" by (rule powr_minus_divide)
  also have "(2::real) powr 22 = 2 ^ 22" by (rule powr_numeral) simp
  finally show ?thesis by simp
qed

lemma two_powr_small:
  "(2::real) powr of_int (- 1) = 1 / 2" "(2::real) powr of_int (- 1 + 1) = 1"
  "(2::real) powr of_int 1 = 2" "(2::real) powr of_int (1 + 1) = 4"
proof -
  show "(2::real) powr of_int (- 1) = 1 / 2"
    using powr_minus_divide [of "2::real" 1] by simp
  show "(2::real) powr of_int (- 1 + 1) = 1" by simp
  show "(2::real) powr of_int 1 = 2" by simp
  have "(2::real) powr 2 = 2 ^ 2" by (rule powr_numeral) simp
  then show "(2::real) powr of_int (1 + 1) = 4" by simp
qed

lemma roundSingle_three_quarters: "roundSingle (3 / 4) = 3 / 4"
proof -
  have "roundSingle (3 / 4) = of_int 12582912 * 2 powr (of_int (- 1) - 23)"
    by (rule roundSingle_in_binade) (simp_all only: two_powr_m24 two_powr_small, simp_all)
  then show ?thesis unfolding two_powr_m24 by simp
qed

lemma roundSingle_three: "roundSingle 3 = 3"
proof -
  have "roundSingle 3 = of_int 12582912 * 2 powr (of_int 1 - 23)"
    by (rule roundSingle_in_binade) (simp_all only: two_powr_m22 two_powr_small, simp_all)
  then show ?thesis unfolding two_powr_m22 by simp
qed

lemma pow_three_quarters_bounds:
  "3 / 4 - 1 / 33554432 \<le> (3 / 4 :: real) powr (1 + 1 / 8388608)"
  "(3 / 4 :: real) powr (1 + 1 / 8388608) < 3 / 4"
proof -
  let ?t = "1 / 8388608 :: real"
  have "(3 / 4 :: real) powr (1 + ?t) < (3 / 4) powr 1"
    by (rule powr_less_mono') simp_all
  then show "(3 / 4 :: real) powr (1 + 1 / 8388608) < 3 / 4" by simp
  have l: "ln (4 / 3 :: real) \<le> 4 / 3 - 1" by (rule ln_le_minus_one) simp
  have "ln (3 / 4 :: real) = - ln (4 / 3)"
    using ln_inverse [of "4 / 3 :: real"] by simp
  then have g: "- (1 / 3) \<le> ln (3 / 4 :: real)" using l by simp
  have "1 + ?t * ln (3 / 4) \<le> exp (?t * ln (3 / 4))" by (rule exp_ge_add_one_self)
  moreover have "1 - ?t / 3 \<le> 1 + ?t * ln (3 / 4)" using g by simp
  ultimately have e: "1 - ?t / 3 \<le> exp (?t * ln (3 / 4))" by linarith
  have "(3 / 4 :: real) powr (1 + ?t) = (3 / 4) powr 1 * (3 / 4) powr ?t" by (rule powr_add)
  also have "\<dots> = 3 / 4 * exp (?t * ln (3 / 4))" by (simp add: powr_def)
  finally have "(3 / 4 :: real) powr (1 + ?t) = 3 / 4 * exp (?t * ln (3 / 4))" .
  then show "3 / 4 - 1 / 33554432 \<le> (3 / 4 :: real) powr (1 + 1 / 8388608)"
    using e by simp
qed

lemma roundSingle_pow: "roundSingle ((3 / 4) powr (1 + 1 / 8388608)) = 3 / 4"
proof -
  let ?y = "(3 / 4 :: real) powr (1 + 1 / 8388608)"
  note b = pow_three_quarters_bounds
  have "roundSingle ?y = of_int 12582912 * 2 powr (of_int (- 1) - 23)"
  proof (rule roundSingle_in_binade)
    show "- 126 \<le> (- 1 :: int)" by simp
    show "2 powr of_int (- 1) \<le> ?y" unfolding two_powr_small using b(1) by linarith
    show "?y < 2 powr of_int (- 1 + 1)" unfolding two_powr_small using b(2) by linarith
    show "of_int 12582912 - 1 / 2 \<le> ?y / 2 powr (of_int (- 1) - 23)"
      unfolding two_powr_m24 using b(1) by simp
    show "?y / 2 powr (of_int (- 1) - 23) \<le> of_int 12582912"
      unfolding two_powr_m24 using b(2) by simp
    show "even (12582912 :: int)" by simp
  qed
  then show ?thesis unfolding two_powr_m24 by simp
qed

text \<open>
  In single precision the strict inequality is lost to rounding.  For five elements up
  to 4 and the exponent \<open>1 + 2^-23\<close>, the float next above 1, the quotient \<open>3 / 4\<close> is
  exact, its power lies less than half a unit in the last place below \<open>3 / 4\<close> and is
  rounded to \<open>3 / 4\<close>, and the product is 3: the element of index 3 keeps its linear
  value.
\<close>

lemma createExponential_single_rounding:
  "createExponential singleOps 5 4 (1 + 1 / 8388608) ! 3 = Fin 3
   \<and> LinSpaced 5 0 4 ! 3 = 3"
proof -
  have l: "LinSpaced 5 0 4 ! 3 = 3" by (simp add: nth_LinSpaced)
  have d: "divF singleOps (Fin 3) (Fin 4) = Fin (3 / 4)"
    by (simp add: toFloat_def singleOps_def Let_def roundSingle_three_quarters)
  have x: "(1 + 1 / 8388608 :: real) = 8388609 / 8388608" by simp
  have p: "powF singleOps (Fin (3 / 4)) (Fin (1 + 1 / 8388608)) = Fin (3 / 4)"
    by (simp add: singleOps_def Let_def roundSingle_pow [unfolded x])
  have m: "mulF singleOps (Fin (3 / 4)) (Fin 4) = Fin 3"
    by (simp add: toFloat_def singleOps_def Let_def roundSingle_three)
  have "createExponential singleOps 5 4 (1 + 1 / 8388608) ! 3 =
          warp singleOps 4 (1 + 1 / 8388608) (LinSpaced 5 0 4 ! 3)"
    by (simp add: nth_createExponential)
  also have "\<dots> = Fin 3" unfolding l warp_unfold d p m ..
  finally show ?thesis using l by simp
qed

section \<open>Properties of findBounds\<close>

declare lowerBound.simps [simp del]

lemma lowerBound_stop: "\<not> lo < hi \<Longrightarrow> lowerBound vs v lo hi = lo"
  by (subst lowerBound.simps) simp

lemma lowerBound_step:
  "lo < hi \<Longrightarrow>
   lowerBound vs v lo hi =
     (if vs ! ((lo + hi) div 2) < v then lowerBound vs v ((lo + hi) div 2 + 1) hi
      else lowerBound vs v lo ((lo + hi) div 2))"
  by (subst lowerBound.simps) (simp add: Let_def)

lemma lowerBound_range:
  "lo \<le> hi \<Longrightarrow> lo \<le> lowerBound vs v lo hi \<and> lowerBound vs v lo hi \<le> hi"
proof (induction vs v lo hi rule: lowerBound.induct)
  case (1 vs v lo hi)
  show ?case
  proof (cases "lo < hi")
    case False
    then show ?thesis using "1.prems" by (simp add: lowerBound_stop)
  next
    case True
    let ?mid = "(lo + hi) div 2"
    have m: "lo \<le> ?mid" "?mid < hi" using True by auto
    show ?thesis
    proof (cases "vs ! ?mid < v")
      case True
      have "?mid + 1 \<le> hi" using m by simp
      from "1.IH"(1) [OF \<open>lo < hi\<close> refl True this] m show ?thesis
        using \<open>lo < hi\<close> True by (simp add: lowerBound_step)
    next
      case False
      have "lo \<le> ?mid" using m by simp
      from "1.IH"(2) [OF \<open>lo < hi\<close> refl False this] m show ?thesis
        using \<open>lo < hi\<close> False by (simp add: lowerBound_step)
    qed
  qed
qed

lemma lowerBound_none_below:
  "lo \<le> hi \<Longrightarrow> (\<forall>i. lo \<le> i \<and> i < hi \<longrightarrow> \<not> vs ! i < v) \<Longrightarrow>
   lowerBound vs v lo hi = lo"
proof (induction vs v lo hi rule: lowerBound.induct)
  case (1 vs v lo hi)
  show ?case
  proof (cases "lo < hi")
    case False
    then show ?thesis by (simp add: lowerBound_stop)
  next
    case True
    let ?mid = "(lo + hi) div 2"
    have m: "lo \<le> ?mid" "?mid < hi" using True by auto
    have nb: "\<not> vs ! ?mid < v" using "1.prems"(2) m by blast
    have "\<forall>i. lo \<le> i \<and> i < ?mid \<longrightarrow> \<not> vs ! i < v"
      using "1.prems"(2) m by auto
    from "1.IH"(2) [OF True refl nb m(1) this] show ?thesis
      using True nb by (simp add: lowerBound_step)
  qed
qed

lemma lowerBound_all_below:
  "lo \<le> hi \<Longrightarrow> (\<forall>i. lo \<le> i \<and> i < hi \<longrightarrow> vs ! i < v) \<Longrightarrow>
   lowerBound vs v lo hi = hi"
proof (induction vs v lo hi rule: lowerBound.induct)
  case (1 vs v lo hi)
  show ?case
  proof (cases "lo < hi")
    case False
    then show ?thesis using "1.prems"(1) by (simp add: lowerBound_stop)
  next
    case True
    let ?mid = "(lo + hi) div 2"
    have m: "lo \<le> ?mid" "?mid < hi" using True by auto
    have b: "vs ! ?mid < v" using "1.prems"(2) m by blast
    have le: "?mid + 1 \<le> hi" using m by simp
    have "\<forall>i. ?mid + 1 \<le> i \<and> i < hi \<longrightarrow> vs ! i < v"
      using "1.prems"(2) m by auto
    from "1.IH"(1) [OF True refl b le this] show ?thesis
      using True b by (simp add: lowerBound_step)
  qed
qed

text \<open>The lower index that \<open>findBounds\<close> computes for a sequence of two or more elements.\<close>

lemma findBounds_many:
  assumes "1 < length vs"
  shows "findBounds vs v eq =
     (let L = (if eq
               then min (max \<lfloor>v / (vs ! (length vs - 1) / real (length vs - 1))\<rfloor> 0)
                        (int (length vs) - 2)
               else min (max (int (lowerBound vs v 0 (length vs))) 1) (int (length vs) - 1) - 1)
      in Some (L, L + 1, vs ! nat L, vs ! nat (L + 1)))"
proof -
  have a: "vs \<noteq> []" "length vs \<noteq> 1" using assms by auto
  have b: "nat (int (length vs) - 1) = length vs - 1" by simp
  have c: "real_of_int (int (length vs) - 1) = real (length vs - 1)"
    using assms by (simp add: of_nat_diff)
  have d: "int (length vs) - 1 - 1 = int (length vs) - 2" by simp
  show ?thesis
    unfolding findBounds_def Let_def using a by (simp only: b c d if_False)
qed

lemma lower_equal_interval:
  fixes n :: nat and x :: real
  assumes "1 < n"
  shows "0 \<le> min (max \<lfloor>x\<rfloor> 0) (int n - 2)"
    and "min (max \<lfloor>x\<rfloor> 0) (int n - 2) \<le> int n - 2"
    and "x < 1 \<Longrightarrow> min (max \<lfloor>x\<rfloor> 0) (int n - 2) = 0"
    and "real (n - 1) < x \<Longrightarrow> min (max \<lfloor>x\<rfloor> 0) (int n - 2) = int n - 2"
proof -
  show "0 \<le> min (max \<lfloor>x\<rfloor> 0) (int n - 2)" using assms by simp
  show "min (max \<lfloor>x\<rfloor> 0) (int n - 2) \<le> int n - 2" by simp
  show "min (max \<lfloor>x\<rfloor> 0) (int n - 2) = 0" if "x < 1"
  proof -
    have "\<lfloor>x\<rfloor> \<le> 0" using that by (simp add: floor_le_iff)
    then show ?thesis using assms by simp
  qed
  show "min (max \<lfloor>x\<rfloor> 0) (int n - 2) = int n - 2" if "real (n - 1) < x"
  proof -
    have "real_of_int (int (n - 1)) \<le> x" using that by simp
    then have "int (n - 1) \<le> \<lfloor>x\<rfloor>" by (simp only: le_floor_iff)
    then show ?thesis using assms by simp
  qed
qed

lemma lower_search:
  fixes n k :: nat
  assumes "1 < n" "k \<le> n"
  shows "0 \<le> min (max (int k) 1) (int n - 1) - 1"
    and "min (max (int k) 1) (int n - 1) - 1 \<le> int n - 2"
    and "k = 0 \<Longrightarrow> min (max (int k) 1) (int n - 1) - 1 = 0"
    and "k = n \<Longrightarrow> min (max (int k) 1) (int n - 1) - 1 = int n - 2"
  using assms by auto

lemma ascending_first_last:
  fixes vs :: "real list"
  assumes "sorted_wrt (<) vs" "i < length vs"
  shows "vs ! 0 \<le> vs ! i" and "vs ! i \<le> last vs"
proof -
  show "vs ! 0 \<le> vs ! i"
  proof (cases "i = 0")
    case False
    then have "vs ! 0 < vs ! i"
      using assms sorted_wrt_nth_less [of "(<)" vs 0 i] by simp
    then show ?thesis by simp
  qed simp
  have l: "last vs = vs ! (length vs - 1)"
    using assms(2) by (intro last_conv_nth) auto
  show "vs ! i \<le> last vs"
  proof (cases "i = length vs - 1")
    case False
    then have "vs ! i < vs ! (length vs - 1)"
      using assms sorted_wrt_nth_less [of "(<)" vs i "length vs - 1"] by simp
    then show ?thesis unfolding l by simp
  qed (simp add: l)
qed

text \<open>
  C6.  For every strictly ascending sequence of at least one element and every query,
  \<open>findBounds\<close> returns a lower and an upper index within \<open>[0, n - 1]\<close>, together with
  the elements at these indices; for one element both indices are 0; for a query below
  the first element the indices are 0 and 1, and for a query above the last they are
  \<open>n - 2\<close> and \<open>n - 1\<close>.  The last two hold on the equal-interval path when the flag is
  passed for a sequence whose last element is positive and whose first element is at
  most the nominal interval.
\<close>

theorem findBounds_in_range:
  assumes ne: "vs \<noteq> []" and asc: "sorted_wrt (<) vs"
  shows "\<exists>lo hi.
     findBounds vs v eq = Some (lo, hi, vs ! nat lo, vs ! nat hi) \<and>
     0 \<le> lo \<and> lo \<le> hi \<and> hi \<le> int (length vs) - 1 \<and>
     (length vs = 1 \<longrightarrow> lo = 0 \<and> hi = 0) \<and>
     (1 < length vs \<and> v < vs ! 0 \<and>
        (eq \<longrightarrow> 0 < last vs \<and> vs ! 0 * real (length vs - 1) \<le> last vs)
        \<longrightarrow> lo = 0 \<and> hi = 1) \<and>
     (1 < length vs \<and> last vs < v \<and> (eq \<longrightarrow> 0 < last vs)
        \<longrightarrow> lo = int (length vs) - 2 \<and> hi = int (length vs) - 1)"
proof (cases "length vs = 1")
  case True
  then have "findBounds vs v eq = Some (0, 0, vs ! nat 0, vs ! nat 0)"
    using ne by (simp add: findBounds_def)
  then show ?thesis using True by simp
next
  case False
  then have n: "1 < length vs" using ne by (cases vs) auto
  let ?n = "length vs"
  let ?iv = "vs ! (?n - 1) / real (?n - 1)"
  let ?k = "lowerBound vs v 0 ?n"
  define L where "L = (if eq then min (max \<lfloor>v / ?iv\<rfloor> 0) (int ?n - 2)
                       else min (max (int ?k) 1) (int ?n - 1) - 1)"
  have fb: "findBounds vs v eq = Some (L, L + 1, vs ! nat L, vs ! nat (L + 1))"
    using findBounds_many [OF n, of v eq] by (simp add: L_def Let_def)
  have k: "?k \<le> ?n" using lowerBound_range [of 0 ?n vs v] by simp
  have last: "last vs = vs ! (?n - 1)" using ne by (rule last_conv_nth)
  have range: "0 \<le> L" "L \<le> int ?n - 2"
    using lower_equal_interval(1,2) [OF n, of "v / ?iv"] lower_search(1,2) [OF n k]
    by (auto simp: L_def)
  have below: "L = 0"
    if v: "v < vs ! 0" and e: "eq \<longrightarrow> 0 < last vs \<and> vs ! 0 * real (?n - 1) \<le> last vs"
  proof (cases eq)
    case True
    have p: "0 < real (?n - 1)" using n by simp
    have iv: "0 < ?iv" using e True p unfolding last by simp
    have "vs ! 0 \<le> ?iv" using e True p unfolding last by (simp add: pos_le_divide_eq)
    then have "v < ?iv" using v by simp
    then have "v / ?iv < 1" using iv by (simp only: divide_less_eq_1_pos)
    then have "min (max \<lfloor>v / ?iv\<rfloor> 0) (int ?n - 2) = 0"
      by (rule lower_equal_interval(3) [OF n])
    then show ?thesis
      unfolding L_def using True by (simp only: if_True)
  next
    case False
    have "\<forall>i. 0 \<le> i \<and> i < ?n \<longrightarrow> \<not> vs ! i < v"
      using ascending_first_last(1) [OF asc] v by fastforce
    then have "?k = 0" using lowerBound_none_below [of 0 ?n vs v] by simp
    then show ?thesis
      using lower_search(3) [OF n k] False by (simp add: L_def)
  qed
  have above: "L = int ?n - 2" if v: "last vs < v" and e: "eq \<longrightarrow> 0 < last vs"
  proof (cases eq)
    case True
    have p: "0 < real (?n - 1)" using n by simp
    have iv: "0 < ?iv" using e True p unfolding last by simp
    have "real (?n - 1) * ?iv = vs ! (?n - 1)" using p by simp
    then have "real (?n - 1) * ?iv < v" using v unfolding last by simp
    then have "real (?n - 1) < v / ?iv" using iv by (simp only: pos_less_divide_eq)
    then have "min (max \<lfloor>v / ?iv\<rfloor> 0) (int ?n - 2) = int ?n - 2"
      by (rule lower_equal_interval(4) [OF n])
    then show ?thesis
      unfolding L_def using True by (simp only: if_True)
  next
    case False
    have "\<forall>i. 0 \<le> i \<and> i < ?n \<longrightarrow> vs ! i < v"
      using ascending_first_last(2) [OF asc] v by fastforce
    then have "?k = ?n" using lowerBound_all_below [of 0 ?n vs v] by simp
    then show ?thesis
      using lower_search(4) [OF n k] False by (simp add: L_def)
  qed
  show ?thesis
  proof (rule exI [of _ L], rule exI [of _ "L + 1"], intro conjI impI)
    show "findBounds vs v eq = Some (L, L + 1, vs ! nat L, vs ! nat (L + 1))" by (rule fb)
    show "0 \<le> L" by (rule range)
    show "L \<le> L + 1" by simp
    show "L + 1 \<le> int ?n - 1" using range by simp
    show "L = 0" if "length vs = 1" using that n by simp
    show "L + 1 = 0" if "length vs = 1" using that n by simp
    show "L = 0"
      if "1 < length vs \<and> v < vs ! 0 \<and>
          (eq \<longrightarrow> 0 < last vs \<and> vs ! 0 * real (length vs - 1) \<le> last vs)"
      using that below by blast
    show "L + 1 = 1"
      if "1 < length vs \<and> v < vs ! 0 \<and>
          (eq \<longrightarrow> 0 < last vs \<and> vs ! 0 * real (length vs - 1) \<le> last vs)"
    proof -
      have "L = 0" using that below by blast
      then show ?thesis by simp
    qed
    show "L = int ?n - 2" if "1 < length vs \<and> last vs < v \<and> (eq \<longrightarrow> 0 < last vs)"
      using that above by blast
    show "L + 1 = int ?n - 1" if "1 < length vs \<and> last vs < v \<and> (eq \<longrightarrow> 0 < last vs)"
    proof -
      have "L = int ?n - 2" using that above by blast
      then show ?thesis by simp
    qed
  qed
qed

theorem findBounds_in_range_witness:
  "findBounds [0, 1, 2] (- 1) False = Some (0, 1, 0, 1)
   \<and> findBounds [0, 1, 2] 5 True = Some (1, 2, 1, 2)
   \<and> findBounds [7] 3 False = Some (0, 0, 7, 7)"
proof -
  have a: "[0, 1, 2 :: real] \<noteq> []" "sorted_wrt (<) [0, 1, 2 :: real]"
          "[7 :: real] \<noteq> []" "sorted_wrt (<) [7 :: real]"
    by simp_all
  have "findBounds [0, 1, 2] (- 1) False = Some (0, 1, 0, 1)"
    using findBounds_in_range [OF a(1,2), of "- 1" False] by auto
  moreover have "findBounds [0, 1, 2] 5 True = Some (1, 2, 1, 2)"
    using findBounds_in_range [OF a(1,2), of 5 True] by auto
  moreover have "findBounds [7] 3 False = Some (0, 0, 7, 7)"
    using findBounds_in_range [OF a(3,4), of 3 False] by auto
  ultimately show ?thesis by blast
qed

section \<open>Properties of arrange\<close>





section \<open>Properties of the DDR writer\<close>

lemma validated_cell_finite:
  assumes "fst (validate ss)"
    and "i0 < getNumAngles0 ss" "i1 < getNumAngles1 ss" "i2 < getNumAngles2 ss"
        "i3 < getNumAngles3 ss"
  shows "allFinite (getSpectrum ss i0 i1 i2 i3)"
proof -
  have "(i0, i1, i2, i3) \<in> set (cellIndices ss)"
    using assms(2-5)
    by (simp add: set_cellIndices getNumAngles0_def getNumAngles1_def getNumAngles2_def
          getNumAngles3_def)
  then show ?thesis
    using assms(1) unfolding fst_validate getSpectrum_def by blast
qed

lemma allFinite_nth:
  "allFinite sp \<Longrightarrow> i < length sp \<Longrightarrow> \<exists>x. sp ! i = Fin x"
  by (cases "sp ! i") (auto simp: allFinite_def list_all_length)

lemma nonNegative_fmax0: "\<not> isNaN a \<Longrightarrow> nonNegative (fmax0 a)"
  by (cases a) auto

lemma outputRow_values:
  "Val v \<in> set (outputRow ex brdf wlIndex inPhIndex inThIndex spPhIndex) \<longleftrightarrow>
     (\<exists>spThIndex < getNumSpecTheta brdf.
        v = outputValue ex brdf wlIndex inPhIndex inThIndex spPhIndex spThIndex)"
  by (auto simp: outputRow_def)

lemma validate_exampleGrid: "isFinite v \<Longrightarrow> fst (validate (exampleGrid v))"
  by (simp add: fst_validate exampleGrid_def allFinite_def)

lemma validate_xyzGrid: "fst (validate xyzGrid)"
  by (simp add: fst_validate xyzGrid_def exampleGrid_def allFinite_def)

text \<open>
  C1 (amended).  On a validated grid, for a cell within the axes and a channel within the
  spectrum, the stored channel is a finite \<open>x\<close>, and: when the color model is not XYZ the
  value written is \<open>max(x, 0) * \<pi>\<close>, which is not negative; when it is XYZ the value
  written is \<open>\<pi>\<close> times the channel of \<open>xyzToSrgb\<close> applied to the spectrum clamped at 0
  (the clamp comes before the conversion, every clamped channel is non-negative, and
  nothing is said of the sign after the conversion).  The floats of a row of the block
  are exactly these values for the specular polar indices of the row.  The older copy of
  \<open>output\<close> writes \<open>\<pi>\<close> times the stored or converted channel with no clamp.
\<close>

theorem outputValue_clamped_scaled:
  assumes valid: "fst (validate (sampleSet brdf))"
    and idx: "inThIndex < getNumInTheta brdf" "inPhIndex < getNumInPhi brdf"
             "spThIndex < getNumSpecTheta brdf" "spPhIndex < getNumSpecPhi brdf"
    and wl: "wlIndex < length (getSpectrum (sampleSet brdf) inThIndex inPhIndex spThIndex spPhIndex)"
  shows "\<exists>x. getSpectrum (sampleSet brdf) inThIndex inPhIndex spThIndex spPhIndex ! wlIndex = Fin x \<and>
     (colorModel (sampleSet brdf) \<noteq> XYZ_MODEL \<longrightarrow>
        outputValue ex brdf wlIndex inPhIndex inThIndex spPhIndex spThIndex = Fin (max x 0 * PI_F) \<and>
        nonNegative (outputValue ex brdf wlIndex inPhIndex inThIndex spPhIndex spThIndex)) \<and>
     (colorModel (sampleSet brdf) = XYZ_MODEL \<longrightarrow>
        outputValue ex brdf wlIndex inPhIndex inThIndex spPhIndex spThIndex =
          fmul (xyzToSrgb ex (map fmax0
                  (getSpectrum (sampleSet brdf) inThIndex inPhIndex spThIndex spPhIndex)) ! wlIndex)
               PI_F \<and>
        list_all nonNegative
          (map fmax0 (getSpectrum (sampleSet brdf) inThIndex inPhIndex spThIndex spPhIndex))) \<and>
     (\<forall>v. Val v \<in> set (outputRow ex brdf wlIndex inPhIndex inThIndex spPhIndex) \<longleftrightarrow>
        (\<exists>i < getNumSpecTheta brdf.
           v = outputValue ex brdf wlIndex inPhIndex inThIndex spPhIndex i)) \<and>
     outputValueOld ex brdf wlIndex inPhIndex inThIndex spPhIndex spThIndex =
       fmul ((if colorModel (sampleSet brdf) = XYZ_MODEL
              then xyzToSrgb ex (getSpectrum (sampleSet brdf) inThIndex inPhIndex spThIndex spPhIndex)
              else getSpectrum (sampleSet brdf) inThIndex inPhIndex spThIndex spPhIndex) ! wlIndex)
            PI_F"
proof -
  let ?sp = "getSpectrum (sampleSet brdf) inThIndex inPhIndex spThIndex spPhIndex"
  have fin: "allFinite ?sp"
    using validated_cell_finite [OF valid, of inThIndex inPhIndex spThIndex spPhIndex] idx
    by (simp add: getNumInTheta_def getNumInPhi_def getNumSpecTheta_def getNumSpecPhi_def)
  then obtain x where x: "?sp ! wlIndex = Fin x"
    using allFinite_nth [OF fin wl] by blast
  have rgb: "outputValue ex brdf wlIndex inPhIndex inThIndex spPhIndex spThIndex = Fin (max x 0 * PI_F)"
    if "colorModel (sampleSet brdf) \<noteq> XYZ_MODEL"
    using that wl x by (simp add: outputValue_def Let_def)
  have pos: "nonNegative (Fin (max x 0 * PI_F))"
    by (simp add: PI_F_def)
  have xyz: "outputValue ex brdf wlIndex inPhIndex inThIndex spPhIndex spThIndex =
          fmul (xyzToSrgb ex (map fmax0 ?sp) ! wlIndex) PI_F"
    if "colorModel (sampleSet brdf) = XYZ_MODEL"
    using that by (simp add: outputValue_def Let_def)
  have clamp: "list_all nonNegative (map fmax0 ?sp)"
  proof -
    have "nonNegative (fmax0 a)" if "a \<in> set ?sp" for a
    proof -
      have "isFinite a" using fin that by (simp add: allFinite_def list_all_iff)
      then have "\<not> isNaN a" by (cases a) auto
      then show ?thesis by (rule nonNegative_fmax0)
    qed
    then show ?thesis by (simp add: list_all_iff)
  qed
  have old: "outputValueOld ex brdf wlIndex inPhIndex inThIndex spPhIndex spThIndex =
       fmul ((if colorModel (sampleSet brdf) = XYZ_MODEL then xyzToSrgb ex ?sp else ?sp) ! wlIndex) PI_F"
    by (simp add: outputValueOld_def Let_def)
  show ?thesis
  proof (rule exI [of _ x], intro conjI impI allI)
    show "?sp ! wlIndex = Fin x" by (rule x)
    show "outputValue ex brdf wlIndex inPhIndex inThIndex spPhIndex spThIndex = Fin (max x 0 * PI_F)"
      if "colorModel (sampleSet brdf) \<noteq> XYZ_MODEL" using that by (rule rgb)
    show "nonNegative (outputValue ex brdf wlIndex inPhIndex inThIndex spPhIndex spThIndex)"
      if "colorModel (sampleSet brdf) \<noteq> XYZ_MODEL" using rgb [OF that] pos by simp
    show "outputValue ex brdf wlIndex inPhIndex inThIndex spPhIndex spThIndex =
          fmul (xyzToSrgb ex (map fmax0 ?sp) ! wlIndex) PI_F"
      if "colorModel (sampleSet brdf) = XYZ_MODEL" using that by (rule xyz)
    show "list_all nonNegative (map fmax0 ?sp)" by (rule clamp)
    show "Val v \<in> set (outputRow ex brdf wlIndex inPhIndex inThIndex spPhIndex) \<longleftrightarrow>
        (\<exists>i < getNumSpecTheta brdf.
           v = outputValue ex brdf wlIndex inPhIndex inThIndex spPhIndex i)" for v
      by (rule outputRow_values)
    show "outputValueOld ex brdf wlIndex inPhIndex inThIndex spPhIndex spThIndex =
       fmul ((if colorModel (sampleSet brdf) = XYZ_MODEL then xyzToSrgb ex ?sp else ?sp) ! wlIndex) PI_F"
      by (rule old)
  qed
qed

theorem outputValue_clamped_scaled_witness:
  "outputValue exampleExternals (specularBrdf (exampleGrid (Fin (- 1)))) 0 0 0 0 0 = Fin 0
   \<and> nonNegative (outputValue exampleExternals (specularBrdf (exampleGrid (Fin (- 1)))) 0 0 0 0 0)"
proof -
  let ?b = "specularBrdf (exampleGrid (Fin (- 1)))"
  have s: "sampleSet ?b = exampleGrid (Fin (- 1))" by (simp add: specularBrdf_def)
  have v: "fst (validate (sampleSet ?b))"
    unfolding s by (rule validate_exampleGrid) simp
  have i: "0 < getNumInTheta ?b" "0 < getNumInPhi ?b" "0 < getNumSpecTheta ?b"
       "0 < getNumSpecPhi ?b" "0 < length (getSpectrum (sampleSet ?b) 0 0 0 0)"
    unfolding s
    by (simp_all add: getNumInTheta_def getNumInPhi_def getNumSpecTheta_def getNumSpecPhi_def
          getNumAngles0_def getNumAngles1_def getNumAngles2_def getNumAngles3_def
          specularBrdf_def exampleGrid_def getSpectrum_def)
  have c: "colorModel (sampleSet ?b) \<noteq> XYZ_MODEL"
    unfolding s by (simp add: exampleGrid_def)
  have g: "getSpectrum (sampleSet ?b) 0 0 0 0 ! 0 = Fin (- 1)"
    unfolding s by (simp add: exampleGrid_def getSpectrum_def)
  from outputValue_clamped_scaled [OF v i, of exampleExternals]
  show ?thesis using c g by auto
qed

text \<open>
  A negative value is written for a validated grid tagged XYZ with X = 0, Y = 1, Z = 0
  in a cell when \<open>xyzToSrgb\<close> is the linear conversion: the red channel is
  \<open>-1.5372 * \<pi>\<close>.  The older copy writes \<open>-\<pi>\<close> for an RGB channel holding \<open>-1\<close>.
\<close>

theorem outputValue_negative_counterexample:
  "fst (validate xyzGrid)
   \<and> outputValue exampleExternals (specularBrdf xyzGrid) 0 0 0 0 0 = Fin (- 1.5372 * pi)
   \<and> \<not> nonNegative (outputValue exampleExternals (specularBrdf xyzGrid) 0 0 0 0 0)
   \<and> outputValueOld exampleExternals (specularBrdf (exampleGrid (Fin (- 1)))) 0 0 0 0 0
       = Fin (- pi)
   \<and> \<not> nonNegative
         (outputValueOld exampleExternals (specularBrdf (exampleGrid (Fin (- 1)))) 0 0 0 0 0)"
proof -
  have a: "outputValue exampleExternals (specularBrdf xyzGrid) 0 0 0 0 0 = Fin (- 1.5372 * pi)"
    by (simp add: outputValue_def specularBrdf_def xyzGrid_def exampleGrid_def
          exampleExternals_def getSpectrum_def PI_F_def)
  have b: "outputValueOld exampleExternals (specularBrdf (exampleGrid (Fin (- 1)))) 0 0 0 0 0
       = Fin (- pi)"
    by (simp add: outputValueOld_def specularBrdf_def exampleGrid_def
          exampleExternals_def getSpectrum_def PI_F_def)
  have c: "\<not> nonNegative (Fin (- 1.5372 * pi))" "\<not> nonNegative (Fin (- pi))"
    by (simp_all add: not_le)
  show ?thesis
    unfolding a b using c validate_xyzGrid by simp
qed














section \<open>Properties of setupTabularBrdf\<close>

text \<open>The spectrum that the loop body stores in a cell that it does not leave out.\<close>

lemma cellSkipped_downward:
  "cellSkipped tb fillable c = (fillable \<and> cellDownward tb c)"
  by (cases c) (simp add: cellSkipped_def cellDownward_def)

lemma tabulateCell_Returned:
  "tabulateCell tb dataType maxValue fillable cm c (Returned brdf) =
     (if cellSkipped tb fillable c then Returned brdf
      else if (case cellValue tb dataType c of (r, g, b) \<Rightarrow> allFinite [r, g, b])
      then Returned (brdf\<lparr>sampleSet := (sampleSet brdf)\<lparr>spectra :=
                      (spectra (sampleSet brdf))(c := cappedSpectrum (modelFloat tb) cm maxValue
                                                        (cellValue tb dataType c))\<rparr>\<rparr>)
      else AssertionFailed)"
proof -
  obtain i0 i1 i2 i3 where c: "c = (i0, i1, i2, i3)" by (cases c) auto
  obtain inDir outDir where d:
    "modelDirections dataType (getInOutDirection tb i0 i1 i2 i3) = (inDir, outDir)"
    by (cases "modelDirections dataType (getInOutDirection tb i0 i1 i2 i3)") auto
  obtain r g b where v: "getBrdfValue tb inDir outDir = (r, g, b)"
    by (cases "getBrdfValue tb inDir outDir") auto
  show ?thesis
    by (simp add: tabulateCell_def c d v cellSkipped_def cellValue_def setSpectrum_def Let_def)
qed

lemma fold_tabulateCell_failed:
  "fold (tabulateCell tb dataType maxValue fillable cm) cs AssertionFailed = AssertionFailed"
  by (induction cs) (simp_all add: tabulateCell_def)

lemma fold_tabulateCell:
  assumes "\<forall>c \<in> set cs. \<not> cellSkipped tb fillable c \<longrightarrow>
             (case cellValue tb dataType c of (r, g, b) \<Rightarrow> allFinite [r, g, b])"
  shows "\<exists>filled.
     fold (tabulateCell tb dataType maxValue fillable cm) cs (Returned brdf) = Returned filled \<and>
     (\<forall>c. spectra (sampleSet filled) c =
        (if c \<in> set cs \<and> \<not> cellSkipped tb fillable c
         then cappedSpectrum (modelFloat tb) cm maxValue (cellValue tb dataType c)
         else spectra (sampleSet brdf) c))"
  using assms
proof (induction cs arbitrary: brdf)
  case Nil
  show ?case by simp
next
  case (Cons c cs)
  let ?b = "if cellSkipped tb fillable c then brdf
            else brdf\<lparr>sampleSet := (sampleSet brdf)\<lparr>spectra :=
                   (spectra (sampleSet brdf))(c := cappedSpectrum (modelFloat tb) cm maxValue
                                                     (cellValue tb dataType c))\<rparr>\<rparr>"
  have step: "tabulateCell tb dataType maxValue fillable cm c (Returned brdf) = Returned ?b"
  proof (cases "cellSkipped tb fillable c")
    case True
    then show ?thesis by (simp add: tabulateCell_Returned)
  next
    case False
    then have "case cellValue tb dataType c of (r, g, b) \<Rightarrow> allFinite [r, g, b]"
      using Cons.prems by simp
    then show ?thesis using False by (simp add: tabulateCell_Returned)
  qed
  have rest: "\<forall>d \<in> set cs. \<not> cellSkipped tb fillable d \<longrightarrow>
             (case cellValue tb dataType d of (r, g, b) \<Rightarrow> allFinite [r, g, b])"
    using Cons.prems by simp
  obtain filled where f:
    "fold (tabulateCell tb dataType maxValue fillable cm) cs (Returned ?b) = Returned filled"
    "\<forall>d. spectra (sampleSet filled) d =
        (if d \<in> set cs \<and> \<not> cellSkipped tb fillable d
         then cappedSpectrum (modelFloat tb) cm maxValue (cellValue tb dataType d)
         else spectra (sampleSet ?b) d)"
    using Cons.IH [OF rest, of ?b] by blast
  have "fold (tabulateCell tb dataType maxValue fillable cm) (c # cs) (Returned brdf) = Returned filled"
    using f(1) step by simp
  moreover have "spectra (sampleSet filled) d =
        (if d \<in> set (c # cs) \<and> \<not> cellSkipped tb fillable d
         then cappedSpectrum (modelFloat tb) cm maxValue (cellValue tb dataType d)
         else spectra (sampleSet brdf) d)" for d
    using f(2) [rule_format, of d] by auto
  ultimately show ?case by blast
qed

lemma fold_tabulateCell_asserts:
  assumes "fold (tabulateCell tb dataType maxValue fillable cm) cs (Returned brdf) = Returned out"
  shows "\<forall>c \<in> set cs. \<not> cellSkipped tb fillable c \<longrightarrow>
             (case cellValue tb dataType c of (r, g, b) \<Rightarrow> allFinite [r, g, b])"
  using assms
proof (induction cs arbitrary: brdf)
  case Nil
  show ?case by simp
next
  case (Cons c cs)
  let ?st = "tabulateCell tb dataType maxValue fillable cm c (Returned brdf)"
  have f: "fold (tabulateCell tb dataType maxValue fillable cm) cs ?st = Returned out"
    using Cons.prems by simp
  have "?st \<noteq> AssertionFailed"
  proof
    assume "?st = AssertionFailed"
    then have "fold (tabulateCell tb dataType maxValue fillable cm) cs ?st = AssertionFailed"
      by (simp only: fold_tabulateCell_failed)
    then show False using f by simp
  qed
  then obtain b' where b': "?st = Returned b'" by (cases ?st) simp_all
  have here: "\<not> cellSkipped tb fillable c \<longrightarrow>
             (case cellValue tb dataType c of (r, g, b) \<Rightarrow> allFinite [r, g, b])"
  proof (intro impI, rule ccontr)
    assume "\<not> cellSkipped tb fillable c"
      and "\<not> (case cellValue tb dataType c of (r, g, b) \<Rightarrow> allFinite [r, g, b])"
    then have "?st = AssertionFailed" by (simp only: tabulateCell_Returned if_False)
    then show False using b' by simp
  qed
  have "\<forall>d \<in> set cs. \<not> cellSkipped tb fillable d \<longrightarrow>
             (case cellValue tb dataType d of (r, g, b) \<Rightarrow> allFinite [r, g, b])"
    by (rule Cons.IH [OF f [unfolded b']])
  then show ?case using here by simp
qed

lemma set_tabulationIndices:
  "set (tabulationIndices ss) =
     {(i0, i1, i2, i3). i0 < getNumAngles0 ss \<and> i1 < getNumAngles1 ss \<and>
                        i2 < getNumAngles2 ss \<and> i3 < getNumAngles3 ss}"
  by (auto simp: tabulationIndices_def image_iff)

lemma modelFinite_cellValue:
  assumes "modelFinite tb"
  shows "case cellValue tb dataType c of (r, g, b) \<Rightarrow> allFinite [r, g, b]"
proof -
  obtain i0 i1 i2 i3 where c: "c = (i0, i1, i2, i3)" by (cases c) auto
  obtain inDir outDir where d:
    "modelDirections dataType (getInOutDirection tb i0 i1 i2 i3) = (inDir, outDir)"
    by (cases "modelDirections dataType (getInOutDirection tb i0 i1 i2 i3)") auto
  have "case getBrdfValue tb inDir outDir of (r, g, b) \<Rightarrow> allFinite [r, g, b]"
    using assms [unfolded modelFinite_def, rule_format, of inDir outDir] .
  then show ?thesis by (simp add: cellValue_def c d)
qed

lemma modelFinite_assertsHold: "modelFinite tb \<Longrightarrow> assertsHold tb brdf dataType"
  using modelFinite_cellValue [of tb dataType] by (simp add: assertsHold_def)

lemma toFloat_not_NaN: "toFloat ar x \<noteq> NaN"
  by (simp add: toFloat_def Let_def)

lemma mean_not_NaN:
  "divF ar (addF ar (addF ar (Fin x) (Fin y)) (Fin z)) (Fin 3) \<noteq> NaN"
proof -
  have a: "addF ar (Fin x) (Fin y) \<noteq> NaN" by (simp add: toFloat_not_NaN)
  have b: "addF ar s (Fin z) \<noteq> NaN" if "s \<noteq> NaN" for s
    using that by (cases s) (simp_all add: toFloat_not_NaN)
  have c: "divF ar s (Fin 3) \<noteq> NaN" if "s \<noteq> NaN" for s
    using that by (cases s) (simp_all add: toFloat_not_NaN)
  show ?thesis by (intro c b a)
qed

lemma le_fmin: "s \<noteq> NaN \<Longrightarrow> le (fmin s m) m"
  by (cases s) auto

lemma cappedSpectrum_finite:
  "cappedSpectrum ar cm maxValue (Fin x, Fin y, Fin z) =
     (if cm = RGB_MODEL
      then [Fin (min x maxValue), Fin (min y maxValue), Fin (min z maxValue)]
      else [fmin (divF ar (addF ar (addF ar (Fin x) (Fin y)) (Fin z)) (Fin 3)) maxValue])"
  by (simp add: cappedSpectrum_def)

lemma cappedSpectrum_le:
  "list_all (\<lambda>ch. le ch maxValue) (cappedSpectrum ar cm maxValue (Fin x, Fin y, Fin z))"
  using le_fmin [OF mean_not_NaN, of ar x y z maxValue]
  by (simp add: cappedSpectrum_finite del: addF.simps divF.simps)

lemma fillBackSide_spectra:
  "\<not> cellDownward tb c \<Longrightarrow>
   spectra (sampleSet (fillBackSide tb brdf)) c = spectra (sampleSet brdf) c"
  by (simp add: fillBackSide_def)

lemma setupTabularBrdf_unfold:
  assumes "colorModel (sampleSet brdf) = RGB_MODEL \<or>
           colorModel (sampleSet brdf) = MONOCHROMATIC_MODEL"
  shows "setupTabularBrdf tb brdf dataType maxValue =
     (case fold (tabulateCell tb dataType maxValue (kind brdf = SpecularCoordinates)
                   (colorModel (sampleSet brdf)))
                (tabulationIndices (sampleSet brdf)) (Returned brdf) of
        AssertionFailed \<Rightarrow> AssertionFailed
      | Returned filled \<Rightarrow>
          Returned (True, if kind brdf = SpecularCoordinates then fillBackSide tb filled
                          else filled))"
  using assms by (cases "colorModel (sampleSet brdf)") (simp_all add: setupTabularBrdf_def Let_def)

lemma setupTabularBrdf_supported:
  assumes cm: "colorModel (sampleSet brdf) = RGB_MODEL \<or>
               colorModel (sampleSet brdf) = MONOCHROMATIC_MODEL"
    and fin: "assertsHold tb brdf dataType"
  shows "\<exists>filled.
     setupTabularBrdf tb brdf dataType maxValue =
       Returned (True, if kind brdf = SpecularCoordinates then fillBackSide tb filled else filled) \<and>
     (\<forall>c. spectra (sampleSet filled) c =
        (if c \<in> set (tabulationIndices (sampleSet brdf)) \<and>
            \<not> cellSkipped tb (kind brdf = SpecularCoordinates) c
         then cappedSpectrum (modelFloat tb) (colorModel (sampleSet brdf)) maxValue
                (cellValue tb dataType c)
         else spectra (sampleSet brdf) c))"
proof -
  obtain filled where f:
    "fold (tabulateCell tb dataType maxValue (kind brdf = SpecularCoordinates)
             (colorModel (sampleSet brdf)))
          (tabulationIndices (sampleSet brdf)) (Returned brdf) = Returned filled"
    "\<forall>c. spectra (sampleSet filled) c =
        (if c \<in> set (tabulationIndices (sampleSet brdf)) \<and>
            \<not> cellSkipped tb (kind brdf = SpecularCoordinates) c
         then cappedSpectrum (modelFloat tb) (colorModel (sampleSet brdf)) maxValue
                (cellValue tb dataType c)
         else spectra (sampleSet brdf) c)"
    using fold_tabulateCell [OF fin [unfolded assertsHold_def]] by blast
  have "setupTabularBrdf tb brdf dataType maxValue =
       Returned (True, if kind brdf = SpecularCoordinates then fillBackSide tb filled else filled)"
    unfolding setupTabularBrdf_unfold [OF cm] f(1) by simp
  then show ?thesis using f(2) by blast
qed

lemma setupTabularBrdf_returned:
  assumes cm: "colorModel (sampleSet brdf) = RGB_MODEL \<or>
               colorModel (sampleSet brdf) = MONOCHROMATIC_MODEL"
    and r: "setupTabularBrdf tb brdf dataType maxValue = Returned (ok, out)"
  shows "ok" and "assertsHold tb brdf dataType"
proof -
  let ?f = "fold (tabulateCell tb dataType maxValue (kind brdf = SpecularCoordinates)
             (colorModel (sampleSet brdf)))
          (tabulationIndices (sampleSet brdf)) (Returned brdf)"
  have r': "(case ?f of AssertionFailed \<Rightarrow> AssertionFailed
            | Returned filled \<Rightarrow>
                Returned (True, if kind brdf = SpecularCoordinates then fillBackSide tb filled
                                else filled)) = Returned (ok, out)"
    using r unfolding setupTabularBrdf_unfold [OF cm] .
  obtain filled where f: "?f = Returned filled"
    using r' by (cases ?f) simp_all
  show "ok" using r' unfolding f by simp
  show "assertsHold tb brdf dataType"
    unfolding assertsHold_def by (rule fold_tabulateCell_asserts [OF f])
qed




text \<open>
  C10.  When the color model is RGB or monochromatic and the \<open>assert\<close> of line 70 holds
  at every cell that the loop visits and does not leave out, \<open>setupTabularBrdf\<close> returns
  true.  In the BRDF that it returns with true, also after \<open>fillBackSide\<close>, every cell
  within the axes that the loop does not leave out, with the finite model value
  \<open>(x, y, z)\<close>, holds that value capped at \<open>maxValue\<close>: for RGB the three channels
  \<open>min(x, maxValue)\<close>, \<open>min(y, maxValue)\<close>, \<open>min(z, maxValue)\<close>, for monochromatic the
  single channel \<open>min((x + y + z) / 3, maxValue)\<close> with the sum and the quotient computed
  in float arithmetic; no channel of such a cell exceeds \<open>maxValue\<close>, also when the sum
  overflows.
\<close>

theorem setupTabularBrdf_capped:
  "((colorModel (sampleSet brdf) = RGB_MODEL \<or>
     colorModel (sampleSet brdf) = MONOCHROMATIC_MODEL) \<and>
    assertsHold tb brdf dataType \<longrightarrow>
      (\<exists>out. setupTabularBrdf tb brdf dataType maxValue = Returned (True, out))) \<and>
   (\<forall>out. setupTabularBrdf tb brdf dataType maxValue = Returned (True, out) \<longrightarrow>
      (\<forall>i0 < getNumAngles0 (sampleSet brdf). \<forall>i1 < getNumAngles1 (sampleSet brdf).
       \<forall>i2 < getNumAngles2 (sampleSet brdf). \<forall>i3 < getNumAngles3 (sampleSet brdf).
         \<not> cellSkipped tb (kind brdf = SpecularCoordinates) (i0, i1, i2, i3) \<longrightarrow>
         (\<forall>x y z. cellValue tb dataType (i0, i1, i2, i3) = (Fin x, Fin y, Fin z) \<longrightarrow>
            getSpectrum (sampleSet out) i0 i1 i2 i3 =
              (if colorModel (sampleSet brdf) = RGB_MODEL
               then [Fin (min x maxValue), Fin (min y maxValue), Fin (min z maxValue)]
               else [fmin (divF (modelFloat tb)
                             (addF (modelFloat tb) (addF (modelFloat tb) (Fin x) (Fin y)) (Fin z))
                             (Fin 3))
                          maxValue]) \<and>
            list_all (\<lambda>ch. le ch maxValue) (getSpectrum (sampleSet out) i0 i1 i2 i3))))"
proof -
  let ?cm = "colorModel (sampleSet brdf)"
  let ?fillable = "kind brdf = SpecularCoordinates"
  let ?S = "setupTabularBrdf tb brdf dataType maxValue"
  have supported: "?cm = RGB_MODEL \<or> ?cm = MONOCHROMATIC_MODEL" if r: "?S = Returned (True, out)"
    for out
  proof (rule ccontr)
    assume "\<not> (?cm = RGB_MODEL \<or> ?cm = MONOCHROMATIC_MODEL)"
    then have "?S = Returned (False, brdf)" by (simp add: setupTabularBrdf_def Let_def)
    then show False using r by simp
  qed
  have returns: "\<exists>out. ?S = Returned (True, out)"
    if "(?cm = RGB_MODEL \<or> ?cm = MONOCHROMATIC_MODEL) \<and> assertsHold tb brdf dataType"
    using that setupTabularBrdf_supported [of brdf tb dataType maxValue] by blast
  have written: "getSpectrum (sampleSet out) i0 i1 i2 i3 =
              (if ?cm = RGB_MODEL
               then [Fin (min x maxValue), Fin (min y maxValue), Fin (min z maxValue)]
               else [fmin (divF (modelFloat tb)
                             (addF (modelFloat tb) (addF (modelFloat tb) (Fin x) (Fin y)) (Fin z))
                             (Fin 3))
                          maxValue]) \<and>
            list_all (\<lambda>ch. le ch maxValue) (getSpectrum (sampleSet out) i0 i1 i2 i3)"
    if r: "?S = Returned (True, out)"
      and i: "i0 < getNumAngles0 (sampleSet brdf)" "i1 < getNumAngles1 (sampleSet brdf)"
          "i2 < getNumAngles2 (sampleSet brdf)" "i3 < getNumAngles3 (sampleSet brdf)"
      and n: "\<not> cellSkipped tb ?fillable (i0, i1, i2, i3)"
      and v: "cellValue tb dataType (i0, i1, i2, i3) = (Fin x, Fin y, Fin z)"
    for out i0 i1 i2 i3 x y z
  proof -
    let ?c = "(i0, i1, i2, i3)"
    have cm: "?cm = RGB_MODEL \<or> ?cm = MONOCHROMATIC_MODEL" by (rule supported [OF r])
    have ah: "assertsHold tb brdf dataType" by (rule setupTabularBrdf_returned(2) [OF cm r])
    obtain filled where r':
      "?S = Returned (True, if ?fillable then fillBackSide tb filled else filled)"
      and s: "\<forall>c. spectra (sampleSet filled) c =
        (if c \<in> set (tabulationIndices (sampleSet brdf)) \<and> \<not> cellSkipped tb ?fillable c
         then cappedSpectrum (modelFloat tb) ?cm maxValue (cellValue tb dataType c)
         else spectra (sampleSet brdf) c)"
      using setupTabularBrdf_supported [OF cm ah, of maxValue] by blast
    have out: "out = (if ?fillable then fillBackSide tb filled else filled)"
      using r r' by simp
    have m: "?c \<in> set (tabulationIndices (sampleSet brdf))"
      using i by (simp add: set_tabulationIndices)
    have same: "spectra (sampleSet out) ?c = spectra (sampleSet filled) ?c"
    proof (cases ?fillable)
      case True
      then have "\<not> cellDownward tb ?c" using n by (simp add: cellSkipped_downward)
      then show ?thesis unfolding out using True by (simp add: fillBackSide_spectra)
    next
      case False
      then show ?thesis unfolding out by simp
    qed
    have "spectra (sampleSet filled) ?c =
            cappedSpectrum (modelFloat tb) ?cm maxValue (Fin x, Fin y, Fin z)"
      using s [rule_format, of ?c] m n v by simp
    then have g: "getSpectrum (sampleSet out) i0 i1 i2 i3 =
               cappedSpectrum (modelFloat tb) ?cm maxValue (Fin x, Fin y, Fin z)"
      using same by (simp add: getSpectrum_def)
    show ?thesis
    proof (intro conjI)
      show "getSpectrum (sampleSet out) i0 i1 i2 i3 =
              (if ?cm = RGB_MODEL
               then [Fin (min x maxValue), Fin (min y maxValue), Fin (min z maxValue)]
               else [fmin (divF (modelFloat tb)
                             (addF (modelFloat tb) (addF (modelFloat tb) (Fin x) (Fin y)) (Fin z))
                             (Fin 3))
                          maxValue])"
        unfolding g by (rule cappedSpectrum_finite)
      show "list_all (\<lambda>ch. le ch maxValue) (getSpectrum (sampleSet out) i0 i1 i2 i3)"
        unfolding g by (rule cappedSpectrum_le)
    qed
  qed
  show ?thesis
  proof (intro conjI allI impI)
    assume "(?cm = RGB_MODEL \<or> ?cm = MONOCHROMATIC_MODEL) \<and> assertsHold tb brdf dataType"
    then show "\<exists>out. ?S = Returned (True, out)" by (rule returns)
  next
    fix out i0 i1 i2 i3 x y z
    assume a: "?S = Returned (True, out)"
      "i0 < getNumAngles0 (sampleSet brdf)" "i1 < getNumAngles1 (sampleSet brdf)"
      "i2 < getNumAngles2 (sampleSet brdf)" "i3 < getNumAngles3 (sampleSet brdf)"
      "\<not> cellSkipped tb ?fillable (i0, i1, i2, i3)"
      "cellValue tb dataType (i0, i1, i2, i3) = (Fin x, Fin y, Fin z)"
    show "getSpectrum (sampleSet out) i0 i1 i2 i3 =
              (if ?cm = RGB_MODEL
               then [Fin (min x maxValue), Fin (min y maxValue), Fin (min z maxValue)]
               else [fmin (divF (modelFloat tb)
                             (addF (modelFloat tb) (addF (modelFloat tb) (Fin x) (Fin y)) (Fin z))
                             (Fin 3))
                          maxValue])"
      using written [OF a] by (rule conjunct1)
    show "list_all (\<lambda>ch. le ch maxValue) (getSpectrum (sampleSet out) i0 i1 i2 i3)"
      using written [OF a] by (rule conjunct2)
  qed
qed

theorem setupTabularBrdf_capped_witness:
  "(\<exists>out.
      setupTabularBrdf exampleTabulation (specularBrdf (exampleGrid (Fin 0))) BRDF_DATA 1
        = Returned (True, out) \<and>
      getSpectrum (sampleSet out) 0 0 0 0 = [Fin 1, Fin (1 / 2), Fin (1 / 2)]) \<and>
   (\<exists>out.
      setupTabularBrdf exampleTabulation
          (specularBrdf ((exampleGrid (Fin 0))\<lparr>colorModel := MONOCHROMATIC_MODEL\<rparr>)) BRDF_DATA 4
        = Returned (True, out) \<and>
      getSpectrum (sampleSet out) 0 0 0 0 = [Fin 1])"
proof -
  have rgb_mono: "\<exists>out.
      setupTabularBrdf exampleTabulation (specularBrdf (g\<lparr>colorModel := cm\<rparr>)) BRDF_DATA m
        = Returned (True, out) \<and>
      getSpectrum (sampleSet out) 0 0 0 0 =
        (if cm = RGB_MODEL
         then [Fin (min 2 m), Fin (min (1 / 2) m), Fin (min (1 / 2) m)]
         else [fmin (divF exactOps
                       (addF exactOps (addF exactOps (Fin 2) (Fin (1 / 2))) (Fin (1 / 2)))
                       (Fin 3))
                    m])"
    if g: "g = exampleGrid (Fin 0)" and cm: "cm = RGB_MODEL \<or> cm = MONOCHROMATIC_MODEL"
    for g cm m
  proof -
    let ?b = "specularBrdf (g\<lparr>colorModel := cm\<rparr>)"
    let ?S = "setupTabularBrdf exampleTabulation ?b BRDF_DATA m"
    have c: "colorModel (sampleSet ?b) = cm" by (simp add: specularBrdf_def)
    have i: "0 < getNumAngles0 (sampleSet ?b)" "0 < getNumAngles1 (sampleSet ?b)"
            "0 < getNumAngles2 (sampleSet ?b)" "0 < getNumAngles3 (sampleSet ?b)"
      by (simp_all add: g specularBrdf_def exampleGrid_def getNumAngles0_def getNumAngles1_def
            getNumAngles2_def getNumAngles3_def)
    have n: "\<not> cellSkipped exampleTabulation (kind ?b = SpecularCoordinates) (0, 0, 0, 0)"
      by (simp add: cellSkipped_def exampleTabulation_def)
    have v: "cellValue exampleTabulation BRDF_DATA (0, 0, 0, 0) =
               (Fin 2, Fin (1 / 2), Fin (1 / 2))"
      by (simp add: cellValue_def exampleTabulation_def split_beta)
    have ah: "assertsHold exampleTabulation ?b BRDF_DATA"
      by (rule modelFinite_assertsHold)
         (simp add: modelFinite_def exampleTabulation_def allFinite_def)
    have f: "modelFloat exampleTabulation = exactOps" by (simp add: exampleTabulation_def)
    note t = setupTabularBrdf_capped [of ?b exampleTabulation BRDF_DATA m]
    have cm': "colorModel (sampleSet ?b) = RGB_MODEL \<or>
               colorModel (sampleSet ?b) = MONOCHROMATIC_MODEL"
      unfolding c by (rule cm)
    obtain out where r: "?S = Returned (True, out)"
      using t [THEN conjunct1, rule_format, OF conjI [OF cm' ah]] ..
    have "getSpectrum (sampleSet out) 0 0 0 0 =
              (if colorModel (sampleSet ?b) = RGB_MODEL
               then [Fin (min 2 m), Fin (min (1 / 2) m), Fin (min (1 / 2) m)]
               else [fmin (divF (modelFloat exampleTabulation)
                             (addF (modelFloat exampleTabulation)
                                (addF (modelFloat exampleTabulation) (Fin 2) (Fin (1 / 2)))
                                (Fin (1 / 2)))
                             (Fin 3))
                          m]) \<and>
            list_all (\<lambda>ch. le ch m) (getSpectrum (sampleSet out) 0 0 0 0)"
      by (rule t [THEN conjunct2, rule_format, OF r i n v])
    then have "getSpectrum (sampleSet out) 0 0 0 0 =
        (if cm = RGB_MODEL
         then [Fin (min 2 m), Fin (min (1 / 2) m), Fin (min (1 / 2) m)]
         else [fmin (divF exactOps
                       (addF exactOps (addF exactOps (Fin 2) (Fin (1 / 2))) (Fin (1 / 2)))
                       (Fin 3))
                    m])"
      unfolding c f by (rule conjunct1)
    then show ?thesis using r by blast
  qed
  have e: "(exampleGrid (Fin 0))\<lparr>colorModel := RGB_MODEL\<rparr> = exampleGrid (Fin 0)"
    by (simp add: exampleGrid_def)
  have mean: "divF exactOps (addF exactOps (addF exactOps (Fin 2) (Fin (1 / 2))) (Fin (1 / 2)))
                (Fin 3) = Fin 1"
    by (simp add: toFloat_exactOps)
  have "\<exists>out.
      setupTabularBrdf exampleTabulation (specularBrdf (exampleGrid (Fin 0))) BRDF_DATA 1
        = Returned (True, out) \<and>
      getSpectrum (sampleSet out) 0 0 0 0 = [Fin 1, Fin (1 / 2), Fin (1 / 2)]"
    using rgb_mono [OF refl, of RGB_MODEL 1] unfolding e by simp
  moreover have "\<exists>out.
      setupTabularBrdf exampleTabulation
          (specularBrdf ((exampleGrid (Fin 0))\<lparr>colorModel := MONOCHROMATIC_MODEL\<rparr>)) BRDF_DATA 4
        = Returned (True, out) \<and>
      getSpectrum (sampleSet out) 0 0 0 0 = [Fin 1]"
    using rgb_mono [OF refl, of MONOCHROMATIC_MODEL 4] unfolding mean by simp
  ultimately show ?thesis by (rule conjI)
qed

end
